theory Spec2Isabelle
  imports Complex_Main "HOL-Library.Multiset" "HOL-Library.AList"
begin

section \<open>Training an additional entity type: the example script\<close>

text \<open>
  The script \<^verbatim>\<open>examples/training/train_new_entity_type.py\<close> is glue code around
  spaCy, pathlib, random and plac. Its own data (the training list, the pipeline list
  and the metadata dictionary of the \<^verbatim>\<open>nlp\<close> object, the loss dictionary) is
  modelled concretely. Every call that leaves the script is recorded, with its arguments,
  in a list of calls; what the callee answers (a value or an exception) is given by a
  record of reply functions, about which nothing is assumed unless a theorem says so.
\<close>

subsection \<open>Data\<close>

text \<open>An entity span is \<^verbatim>\<open>(start, end, label)\<close>; an example pairs a text with its spans.\<close>

type_synonym span = "int \<times> int \<times> string"
type_synonym example = "string \<times> span list"

text \<open>Objects of the libraries, identified by how they were built.\<close>

datatype path = Path string
datatype vocab = Vocab string
datatype doc = Doc string
datatype gold = GoldParse doc "span list"
datatype pipe = TokenVectorEncoder vocab | NeuralEntityRecognizer vocab | Pipe string
datatype optimizer = Optimizer nat

text \<open>
  A dictionary with string keys, as the list of its items in insertion order: \<open>[]\<close> is
  \<^verbatim>\<open>{}\<close>, \<open>map_of d k\<close> looks a key up and \<open>AList.update k v d\<close> is \<^verbatim>\<open>d[k] = v\<close>.
  The loss dictionary holds floats, which the script never inspects.
\<close>

type_synonym 'v dict = "(string \<times> 'v) list"
type_synonym pyfloat = real
type_synonym losses = "pyfloat dict"

text \<open>The Python values that are printed, stored as metadata or passed as a directory.\<close>

datatype pyval = PyNone | PyStr string | PyPath path | PyDict losses

text \<open>
  Truth value of an object under \<^verbatim>\<open>not\<close> and \<^verbatim>\<open>if\<close>: \<^verbatim>\<open>None\<close>, the empty
  string and the empty dictionary are false; a \<^verbatim>\<open>pathlib.Path\<close> defines neither
  \<^verbatim>\<open>__bool__\<close> nor \<^verbatim>\<open>__len__\<close> and is always true.
\<close>

fun truthy :: "pyval \<Rightarrow> bool" where
  "truthy PyNone = False"
| "truthy (PyStr s) = (s \<noteq> [])"
| "truthy (PyPath p) = True"
| "truthy (PyDict d) = (d \<noteq> [])"

text \<open>The part of a \<^verbatim>\<open>Language\<close> object that the script reads and writes.\<close>

record language =
  vocab :: vocab
  pipeline :: "pipe list"
  meta :: "pyval dict"

datatype exn = LibraryError string | AttributeError | IndexError | ValueError | TypeError

text \<open>The calls that leave the script, each with its arguments (a method call with its receiver).\<close>

datatype call =
    Print "pyval list"
  | RandomSeed int
  | RandomShuffle "example list"
  | SpacyBlank string
  | SpacyLoad pyval
  | NewTokenVectorEncoder vocab
  | NewNeuralEntityRecognizer vocab
  | AddLabel pipe string
  | BeginTraining language
  | MakeDoc language string
  | NewGoldParse doc "span list"
  | Update language "doc list" "gold list" losses optimizer bool pyfloat
  | PathExists path
  | PathMkdir path
  | ToDisk language pyval
  | NlpCall language string
  | PlacCall "string list"

text \<open>
  The libraries. \<open>raises L h c\<close> says whether call \<open>c\<close>, made after the calls \<open>h\<close>, raises;
  a reply function gives the value a call returns, from the calls made so far (the call
  itself included). The generator of the \<^verbatim>\<open>random\<close> module has a state of its own:
  \<open>seed_reply L a\<close> is the state after \<^verbatim>\<open>random.seed(a)\<close>, and \<open>shuffle_reply L g xs\<close>
  the list and the state that \<^verbatim>\<open>random.shuffle\<close> leaves from state \<open>g\<close> and list \<open>xs\<close>.
\<close>

record 'g lib =
  raises :: "call list \<Rightarrow> call \<Rightarrow> exn option"
  seed_reply :: "int \<Rightarrow> 'g"
  shuffle_reply :: "'g \<Rightarrow> example list \<Rightarrow> example list \<times> 'g"
  blank_reply :: "call list \<Rightarrow> language"
  load_reply :: "call list \<Rightarrow> language"
  begin_training_reply :: "call list \<Rightarrow> optimizer"
  update_reply :: "call list \<Rightarrow> losses"
  exists_reply :: "call list \<Rightarrow> bool"
  ents_reply :: "call list \<Rightarrow> (string \<times> string) list"
  plac_reply :: "call list \<Rightarrow> string list"

text \<open>
  The state of a run: the generator of \<^verbatim>\<open>random\<close>, the calls made so far, and the two
  mutable objects that \<^verbatim>\<open>main\<close> and \<^verbatim>\<open>train_ner\<close> share by reference, the
  \<^verbatim>\<open>nlp\<close> object and the \<^verbatim>\<open>train_data\<close> list.
\<close>

record 'g state =
  rng :: 'g
  calls :: "call list"
  nlp_obj :: language
  train_data_obj :: "example list"

subsection \<open>Statements that may raise\<close>

text \<open>
  A statement maps a state to an exception or a value, and the state it leaves: what was
  mutated before an exception stays mutated.
\<close>

type_synonym ('a, 'g) prog = "'g state \<Rightarrow> (exn + 'a) \<times> 'g state"

definition ret :: "'a \<Rightarrow> ('a, 'g) prog" where
  "ret x = (\<lambda>s. (Inr x, s))"

definition raise :: "exn \<Rightarrow> ('a, 'g) prog" where
  "raise e = (\<lambda>s. (Inl e, s))"

definition andthen :: "('a, 'g) prog \<Rightarrow> ('a \<Rightarrow> ('b, 'g) prog) \<Rightarrow> ('b, 'g) prog" where
  "andthen m f = (\<lambda>s. case m s of (Inl e, s') \<Rightarrow> (Inl e, s') | (Inr x, s') \<Rightarrow> f x s')"

definition invoke :: "'g lib \<Rightarrow> call \<Rightarrow> (call list \<Rightarrow> 'a) \<Rightarrow> ('a, 'g) prog" where
  "invoke L c reply = (\<lambda>s.
     let s' = s\<lparr>calls := calls s @ [c]\<rparr> in
     case raises L (calls s) c of
       Some e \<Rightarrow> (Inl e, s')
     | None \<Rightarrow> (Inr (reply (calls s')), s'))"

definition print :: "'g lib \<Rightarrow> pyval list \<Rightarrow> (unit, 'g) prog" where
  "print L objs = invoke L (Print objs) (\<lambda>_. ())"

definition random_seed :: "'g lib \<Rightarrow> int \<Rightarrow> (unit, 'g) prog" where
  "random_seed L a =
     andthen (invoke L (RandomSeed a) (\<lambda>_. ()))
       (\<lambda>_ s. (Inr (), s\<lparr>rng := seed_reply L a\<rparr>))"

text \<open>\<^verbatim>\<open>random.shuffle(train_data)\<close> reorders the list object in place.\<close>

definition random_shuffle :: "'g lib \<Rightarrow> (unit, 'g) prog" where
  "random_shuffle L = (\<lambda>s.
     andthen (invoke L (RandomShuffle (train_data_obj s)) (\<lambda>_. ()))
       (\<lambda>_ s'. case shuffle_reply L (rng s') (train_data_obj s') of
          (xs, g) \<Rightarrow> (Inr (), s'\<lparr>rng := g, train_data_obj := xs\<rparr>)) s)"

text \<open>\<^verbatim>\<open>nlp.make_doc\<close>, the tokenizer that \<^verbatim>\<open>train_ner\<close> hands to the generator.\<close>

definition make_doc :: "'g lib \<Rightarrow> string \<Rightarrow> (doc, 'g) prog" where
  "make_doc L raw_text = (\<lambda>s. invoke L (MakeDoc (nlp_obj s) raw_text) (\<lambda>_. Doc raw_text) s)"

definition new_GoldParse :: "'g lib \<Rightarrow> doc \<Rightarrow> span list \<Rightarrow> (gold, 'g) prog" where
  "new_GoldParse L d entities = invoke L (NewGoldParse d entities) (\<lambda>_. GoldParse d entities)"

subsection \<open>get_gold_parses\<close>

text \<open>
  A generator: the list of the computations of its items, each run when the consumer asks
  for the item. \<open>get_gold_parses_item\<close> is the body of its loop for one example. The
  shuffle runs when the first item is asked for, which \<^verbatim>\<open>minibatch\<close> does before
  anything else happens in the epoch.
\<close>

definition get_gold_parses_item ::
  "'g lib \<Rightarrow> (string \<Rightarrow> (doc, 'g) prog) \<Rightarrow> example \<Rightarrow> (doc \<times> gold, 'g) prog" where
  "get_gold_parses_item L tokenizer = (\<lambda>(raw_text, entity_offsets).
     andthen (tokenizer raw_text) (\<lambda>d.
     andthen (new_GoldParse L d entity_offsets) (\<lambda>g.
     ret (d, g))))"

definition get_gold_parses ::
  "'g lib \<Rightarrow> (string \<Rightarrow> (doc, 'g) prog) \<Rightarrow> ((doc \<times> gold, 'g) prog list, 'g) prog" where
  "get_gold_parses L tokenizer =
     andthen (random_shuffle L) (\<lambda>_ s.
       (Inr (map (get_gold_parses_item L tokenizer) (train_data_obj s)), s))"

subsection \<open>minibatch\<close>

text \<open>
  \<^verbatim>\<open>take\<close> on a generator: the items are computed in order, and the first exception ends
  the batch.
\<close>

fun pull :: "('a, 'g) prog list \<Rightarrow> ('a list, 'g) prog" where
  "pull [] = ret []"
| "pull (item # items) = andthen item (\<lambda>x. andthen (pull items) (\<lambda>xs. ret (x # xs)))"

text \<open>
  Modelled from the spec: \<^verbatim>\<open>spacy.gold.minibatch\<close> is imported by the script and is not
  among the sources. The spec has the example set presented "in small batches"; the
  script asks for \<^verbatim>\<open>size=3\<close>. The model cuts the stream of items into consecutive
  batches of \<open>n\<close> items, the last one shorter when the items run out, and stops at the
  first empty batch. It is itself a generator: each batch is computed when the loop asks
  for it.
\<close>

function minibatch :: "nat \<Rightarrow> ('a, 'g) prog list \<Rightarrow> ('a list, 'g) prog list" where
  "minibatch n items =
     (let batch = take n items in
      if batch = [] then [] else pull batch # minibatch n (drop n items))"
  by pat_completeness auto
termination
  by (relation "measure (\<lambda>(n, items). length items)") auto

declare minibatch.simps [simp del]

subsection \<open>train_ner\<close>

definition begin_training :: "'g lib \<Rightarrow> (optimizer, 'g) prog" where
  "begin_training L = (\<lambda>s. invoke L (BeginTraining (nlp_obj s)) (begin_training_reply L) s)"

text \<open>\<^verbatim>\<open>nlp.meta[key] = value\<close>\<close>

definition set_meta :: "string \<Rightarrow> pyval \<Rightarrow> (unit, 'g) prog" where
  "set_meta k v = (\<lambda>s. (Inr (), s\<lparr>nlp_obj := (nlp_obj s)\<lparr>meta := AList.update k v (meta (nlp_obj s))\<rparr>\<rparr>))"

text \<open>
  \<^verbatim>\<open>docs, golds = zip(*batch)\<close>: unpacking into two names raises \<^verbatim>\<open>ValueError\<close> when
  the batch is empty.
\<close>

definition zip_star :: "('a \<times> 'b) list \<Rightarrow> ('a list \<times> 'b list, 'g) prog" where
  "zip_star batch = (if batch = [] then raise ValueError else ret (map fst batch, map snd batch))"

text \<open>
  \<^verbatim>\<open>nlp.update(docs, golds, losses=losses, sgd=..., update_shared=..., drop=...)\<close>
  writes into the dictionary \<^verbatim>\<open>losses\<close>; the model returns the dictionary as the call
  leaves it.
\<close>

definition nlp_update ::
  "'g lib \<Rightarrow> doc list \<Rightarrow> gold list \<Rightarrow> losses \<Rightarrow> optimizer \<Rightarrow> bool \<Rightarrow> pyfloat \<Rightarrow> (losses, 'g) prog" where
  "nlp_update L docs golds losses sgd update_shared dropout = (\<lambda>s.
     invoke L (Update (nlp_obj s) docs golds losses sgd update_shared dropout) (update_reply L) s)"

text \<open>The loop \<^verbatim>\<open>for batch in minibatch(...)\<close> of one epoch, over the batches still to come.\<close>

fun for_batch ::
  "'g lib \<Rightarrow> optimizer \<Rightarrow> losses \<Rightarrow> ((doc \<times> gold) list, 'g) prog list \<Rightarrow> (losses, 'g) prog" where
  "for_batch L optimizer losses [] = ret losses"
| "for_batch L optimizer losses (next_batch # batches) =
     andthen next_batch (\<lambda>batch.
     andthen (zip_star batch) (\<lambda>(docs, golds).
     andthen (nlp_update L docs golds losses optimizer True (35 / 100)) (\<lambda>losses'.
     for_batch L optimizer losses' batches)))"

text \<open>The loop \<^verbatim>\<open>for itn in range(n)\<close>, over the number of iterations still to run.\<close>

fun for_itn :: "'g lib \<Rightarrow> optimizer \<Rightarrow> nat \<Rightarrow> (unit, 'g) prog" where
  "for_itn L optimizer 0 = ret ()"
| "for_itn L optimizer (Suc n) =
     andthen (get_gold_parses L (make_doc L)) (\<lambda>items.
     andthen (for_batch L optimizer [] (minibatch 3 items)) (\<lambda>losses.
     andthen (print L [PyDict losses]) (\<lambda>_.
     for_itn L optimizer n)))"

definition path_exists :: "'g lib \<Rightarrow> path \<Rightarrow> (bool, 'g) prog" where
  "path_exists L p = invoke L (PathExists p) (exists_reply L)"

definition path_mkdir :: "'g lib \<Rightarrow> path \<Rightarrow> (unit, 'g) prog" where
  "path_mkdir L p = invoke L (PathMkdir p) (\<lambda>_. ())"

definition to_disk :: "'g lib \<Rightarrow> pyval \<Rightarrow> (unit, 'g) prog" where
  "to_disk L dir = (\<lambda>s. invoke L (ToDisk (nlp_obj s) dir) (\<lambda>_. ()) s)"

text \<open>
  \<^verbatim>\<open>train_ner(nlp, train_data, output_dir)\<close>. The first two arguments are the objects of
  the state. A true \<^verbatim>\<open>output_dir\<close> that is no \<^verbatim>\<open>Path\<close> has no method
  \<^verbatim>\<open>exists\<close>.
\<close>

definition train_ner :: "'g lib \<Rightarrow> pyval \<Rightarrow> (unit, 'g) prog" where
  "train_ner L output_dir =
     andthen (random_seed L 0) (\<lambda>_.
     andthen (begin_training L) (\<lambda>optimizer.
     andthen (set_meta ''name'' (PyStr ''en_ent_animal'')) (\<lambda>_.
     andthen (for_itn L optimizer 50) (\<lambda>_.
     if \<not> truthy output_dir then ret ()
     else (case output_dir of
         PyPath p \<Rightarrow>
           andthen (path_exists L p) (\<lambda>there.
           andthen (if \<not> there then path_mkdir L p else ret ()) (\<lambda>_.
           to_disk L output_dir))
       | _ \<Rightarrow> raise AttributeError)))))"

subsection \<open>main\<close>

definition train_data :: "example list" where
  "train_data =
     [(''Horses are too tall and they pretend to care about your feelings'',
         [(0, 6, ''ANIMAL'')]),
      (''Do they bite?'',
         []),
      (''horses are too tall and they pretend to care about your feelings'',
         [(0, 6, ''ANIMAL'')]),
      (''horses pretend to care about your feelings'',
         [(0, 6, ''ANIMAL'')]),
      (''they pretend to care about your feelings, those horses'',
         [(48, 54, ''ANIMAL'')]),
      (''horses?'',
         [(0, 6, ''ANIMAL'')])]"

definition spacy_blank :: "'g lib \<Rightarrow> string \<Rightarrow> (language, 'g) prog" where
  "spacy_blank L name = invoke L (SpacyBlank name) (blank_reply L)"

definition spacy_load :: "'g lib \<Rightarrow> pyval \<Rightarrow> (language, 'g) prog" where
  "spacy_load L dir = invoke L (SpacyLoad dir) (load_reply L)"

definition new_TokenVectorEncoder :: "'g lib \<Rightarrow> vocab \<Rightarrow> (pipe, 'g) prog" where
  "new_TokenVectorEncoder L v = invoke L (NewTokenVectorEncoder v) (\<lambda>_. TokenVectorEncoder v)"

definition new_NeuralEntityRecognizer :: "'g lib \<Rightarrow> vocab \<Rightarrow> (pipe, 'g) prog" where
  "new_NeuralEntityRecognizer L v =
     invoke L (NewNeuralEntityRecognizer v) (\<lambda>_. NeuralEntityRecognizer v)"

text \<open>Binding the names \<^verbatim>\<open>nlp\<close> and \<^verbatim>\<open>train_data\<close> to new objects.\<close>

definition assign_nlp :: "language \<Rightarrow> (unit, 'g) prog" where
  "assign_nlp nlp = (\<lambda>s. (Inr (), s\<lparr>nlp_obj := nlp\<rparr>))"

definition assign_train_data :: "example list \<Rightarrow> (unit, 'g) prog" where
  "assign_train_data xs = (\<lambda>s. (Inr (), s\<lparr>train_data_obj := xs\<rparr>))"

text \<open>\<^verbatim>\<open>nlp.pipeline.append(p)\<close>\<close>

definition pipeline_append :: "pipe \<Rightarrow> (unit, 'g) prog" where
  "pipeline_append p =
     (\<lambda>s. (Inr (), s\<lparr>nlp_obj := (nlp_obj s)\<lparr>pipeline := pipeline (nlp_obj s) @ [p]\<rparr>\<rparr>))"

text \<open>\<^verbatim>\<open>nlp.pipeline[-1]\<close>, an \<^verbatim>\<open>IndexError\<close> on the empty list.\<close>

definition pipeline_last :: "(pipe, 'g) prog" where
  "pipeline_last = (\<lambda>s.
     if pipeline (nlp_obj s) = [] then (Inl IndexError, s)
     else (Inr (last (pipeline (nlp_obj s))), s))"

definition add_label :: "'g lib \<Rightarrow> pipe \<Rightarrow> string \<Rightarrow> (unit, 'g) prog" where
  "add_label L p label = invoke L (AddLabel p label) (\<lambda>_. ())"

text \<open>\<^verbatim>\<open>nlp(text).ents\<close>, each entity as its \<^verbatim>\<open>label_\<close> and its \<^verbatim>\<open>text\<close>.\<close>

definition nlp_call :: "'g lib \<Rightarrow> language \<Rightarrow> string \<Rightarrow> ((string \<times> string) list, 'g) prog" where
  "nlp_call L nlp text = invoke L (NlpCall nlp text) (ents_reply L)"

text \<open>The loop \<^verbatim>\<open>for ent in doc.ents: print(ent.label_, ent.text)\<close>.\<close>

fun for_ent :: "'g lib \<Rightarrow> (string \<times> string) list \<Rightarrow> (unit, 'g) prog" where
  "for_ent L [] = ret ()"
| "for_ent L ((label, text) # ents) =
     andthen (print L [PyStr label, PyStr text]) (\<lambda>_. for_ent L ents)"

text \<open>
  \<^verbatim>\<open>main(model_name, output_directory=None)\<close>; the default of the second parameter is
  the value \<open>None\<close> of the option type. The local names \<^verbatim>\<open>nlp\<close> and \<^verbatim>\<open>train_data\<close>
  are bound to the objects of the state.
\<close>

definition main :: "'g lib \<Rightarrow> string \<Rightarrow> string option \<Rightarrow> (unit, 'g) prog" where
  "main L model_name output_directory =
     andthen (print L [PyStr ''Creating initial model'', PyStr model_name]) (\<lambda>_.
     andthen (spacy_blank L model_name) (\<lambda>nlp.
     andthen (assign_nlp nlp) (\<lambda>_.
     let output_directory =
           (case output_directory of None \<Rightarrow> PyNone | Some d \<Rightarrow> PyPath (Path d)) in
     andthen (assign_train_data train_data) (\<lambda>_.
     andthen (\<lambda>s. new_TokenVectorEncoder L (vocab (nlp_obj s)) s) (\<lambda>p.
     andthen (pipeline_append p) (\<lambda>_.
     andthen (\<lambda>s. new_NeuralEntityRecognizer L (vocab (nlp_obj s)) s) (\<lambda>p.
     andthen (pipeline_append p) (\<lambda>_.
     andthen pipeline_last (\<lambda>p.
     andthen (add_label L p ''ANIMAL'') (\<lambda>_.
     andthen (train_ner L output_directory) (\<lambda>_.
     let text = ''Do you like horses?'' in
     andthen (print L [PyStr ''Ents in 'Do you like horses?':'']) (\<lambda>_.
     andthen (\<lambda>s. nlp_call L (nlp_obj s) text s) (\<lambda>ents.
     andthen (for_ent L ents) (\<lambda>_.
     if truthy output_directory then
       andthen (print L [PyStr ''Loading from'', output_directory]) (\<lambda>_.
       andthen (spacy_load L output_directory) (\<lambda>nlp2.
       andthen (nlp_call L nlp2 ''Do you like horses?'') (\<lambda>ents2.
       for_ent L ents2)))
     else ret ()))))))))))))))"

subsection \<open>The entry point\<close>

text \<open>
  \<^verbatim>\<open>main(*args)\<close>: one positional argument leaves \<^verbatim>\<open>output_directory\<close> at its default,
  two give both parameters, any other number is a \<^verbatim>\<open>TypeError\<close>.
\<close>

definition call_main :: "'g lib \<Rightarrow> string list \<Rightarrow> (unit, 'g) prog" where
  "call_main L args =
     (case args of
        [model_name] \<Rightarrow> main L model_name None
      | [model_name, output_directory] \<Rightarrow> main L model_name (Some output_directory)
      | _ \<Rightarrow> raise TypeError)"

text \<open>
  \<^verbatim>\<open>plac.call(main)\<close>: plac is not among the sources. It is taken as it is used: a call
  that reads the command line \<open>argv\<close> and either raises or hands its positional arguments
  to \<^verbatim>\<open>main\<close>.
\<close>

definition entry_point :: "'g lib \<Rightarrow> string list \<Rightarrow> (unit, 'g) prog" where
  "entry_point L argv = andthen (invoke L (PlacCall argv) (plac_reply L)) (call_main L)"

section \<open>Observing a run\<close>

text \<open>
  The claims speak about what a run does: which calls it makes, in which order, with
  which arguments, and how it ends. The definitions of this section read these facts off
  the list of calls and off the outcome. None of them is used by the model above.
\<close>

subsection \<open>The calls of one statement\<close>

text \<open>The calls that statement \<open>p\<close> adds when it runs from state \<open>s\<close>.\<close>

definition new_calls :: "('a, 'g) prog \<Rightarrow> 'g state \<Rightarrow> call list" where
  "new_calls p s = drop (length (calls s)) (calls (snd (p s)))"

text \<open>\<open>None\<close> for a normal return, the exception otherwise.\<close>

definition outcome :: "exn + 'a \<Rightarrow> exn option" where
  "outcome r = (case r of Inl e \<Rightarrow> Some e | Inr x \<Rightarrow> None)"

subsection \<open>The training schedule\<close>

text \<open>
  Consecutive batches of \<open>n\<close> elements of a list, the last one shorter when the elements
  run out: what \<open>minibatch\<close> computes, on values instead of computations.
\<close>

function chunks :: "nat \<Rightarrow> 'a list \<Rightarrow> 'a list list" where
  "chunks n xs = (if take n xs = [] then [] else take n xs # chunks n (drop n xs))"
  by pat_completeness auto
termination
  by (relation "measure (\<lambda>(n, xs). length xs)") auto

declare chunks.simps [simp del]

text \<open>The pair that the generator yields for an example, and the calls it makes for it.\<close>

definition gold_of :: "example \<Rightarrow> doc \<times> gold" where
  "gold_of = (\<lambda>(raw_text, entity_offsets). (Doc raw_text, GoldParse (Doc raw_text) entity_offsets))"

definition item_calls :: "language \<Rightarrow> example \<Rightarrow> call list" where
  "item_calls nlp = (\<lambda>(raw_text, entity_offsets).
     [MakeDoc nlp raw_text, NewGoldParse (Doc raw_text) entity_offsets])"

text \<open>
  The steps of the training schedule that a list of calls contains: a shuffle of the
  example list (with the list as it was handed to \<^verbatim>\<open>random.shuffle\<close>), a batch presented
  to \<^verbatim>\<open>nlp.update\<close> (as the list of its pairs), and the report \<^verbatim>\<open>print(losses)\<close> that
  ends an epoch. All other calls are no steps.
\<close>

datatype step = Shuffle "example list" | Present "(doc \<times> gold) list" | Report

fun step_of :: "call \<Rightarrow> step list" where
  "step_of (RandomShuffle xs) = [Shuffle xs]"
| "step_of (Update nlp docs golds l sgd us dr) = [Present (zip docs golds)]"
| "step_of (Print [PyDict l]) = [Report]"
| "step_of c = []"

definition steps :: "call list \<Rightarrow> step list" where
  "steps cs = concat (map step_of cs)"

fun is_Shuffle :: "step \<Rightarrow> bool" where
  "is_Shuffle (Shuffle xs) = True"
| "is_Shuffle st = False"

fun is_Report :: "step \<Rightarrow> bool" where
  "is_Report Report = True"
| "is_Report st = False"

text \<open>A batch holds at least one and at most three pairs.\<close>

fun batch_ok :: "step \<Rightarrow> bool" where
  "batch_ok (Present b) = (b \<noteq> [] \<and> length b \<le> 3)"
| "batch_ok st = True"

text \<open>
  One shuffle, as a step on the pair of the list and the generator, and the example list
  after \<open>k\<close> shuffles that start from the generator seeded with 0.
\<close>

definition shuffle_once :: "'g lib \<Rightarrow> example list \<times> 'g \<Rightarrow> example list \<times> 'g" where
  "shuffle_once L = (\<lambda>(xs, g). shuffle_reply L g xs)"

definition shuffled :: "'g lib \<Rightarrow> example list \<Rightarrow> nat \<Rightarrow> example list" where
  "shuffled L xs k = fst ((shuffle_once L ^^ k) (xs, seed_reply L 0))"

text \<open>
  The steps of one epoch as the claims describe it: the list \<open>xs\<close> is shuffled into
  \<open>ys\<close>, then \<open>ys\<close> is presented in batches of three, then the losses are printed.
\<close>

definition epoch_steps :: "example list \<Rightarrow> example list \<Rightarrow> step list" where
  "epoch_steps xs ys = Shuffle xs # map (\<lambda>c. Present (map gold_of c)) (chunks 3 ys) @ [Report]"

text \<open>
  The loss dictionaries handed to the first \<^verbatim>\<open>nlp.update\<close> after each shuffle. The flag
  says whether a shuffle has been seen since the last update; \<open>flag_after\<close> is the flag at
  the end of a list of calls.
\<close>

fun first_losses :: "bool \<Rightarrow> call list \<Rightarrow> losses list" where
  "first_losses b [] = []"
| "first_losses b (RandomShuffle xs # cs) = first_losses True cs"
| "first_losses b (Update nlp docs golds l sgd us dr # cs) =
     (if b then [l] else []) @ first_losses False cs"
| "first_losses b (c # cs) = first_losses b cs"

fun flag_after :: "bool \<Rightarrow> call list \<Rightarrow> bool" where
  "flag_after b [] = b"
| "flag_after b (RandomShuffle xs # cs) = flag_after True cs"
| "flag_after b (Update nlp docs golds l sgd us dr # cs) = flag_after False cs"
| "flag_after b (c # cs) = flag_after b cs"

subsection \<open>Kinds of calls\<close>

text \<open>
  The calls of an epoch, the calls of the training part, the calls that seed the generator,
  that register a label, that load a pipeline or apply one to a text, and that name a
  directory; and the directories a call names.
\<close>

fun epoch_call :: "call \<Rightarrow> bool" where
  "epoch_call (RandomShuffle xs) = True"
| "epoch_call (MakeDoc nlp raw_text) = True"
| "epoch_call (NewGoldParse d entities) = True"
| "epoch_call (Update nlp docs golds l sgd us dr) = True"
| "epoch_call (Print [PyDict l]) = True"
| "epoch_call c = False"

fun training_call :: "call \<Rightarrow> bool" where
  "training_call (RandomSeed a) = True"
| "training_call (BeginTraining nlp) = True"
| "training_call c = epoch_call c"

fun seed_call :: "call \<Rightarrow> bool" where
  "seed_call (RandomSeed a) = True"
| "seed_call c = False"

fun add_label_call :: "call \<Rightarrow> bool" where
  "add_label_call (AddLabel p label) = True"
| "add_label_call c = False"

fun infer_call :: "call \<Rightarrow> bool" where
  "infer_call (SpacyLoad dir) = True"
| "infer_call (NlpCall nlp text) = True"
| "infer_call c = False"

fun path_call :: "call \<Rightarrow> bool" where
  "path_call (PathExists p) = True"
| "path_call (PathMkdir p) = True"
| "path_call (ToDisk nlp dir) = True"
| "path_call (SpacyLoad dir) = True"
| "path_call c = False"

fun dir_args :: "call \<Rightarrow> pyval list" where
  "dir_args (PathExists p) = [PyPath p]"
| "dir_args (PathMkdir p) = [PyPath p]"
| "dir_args (ToDisk nlp dir) = [dir]"
| "dir_args (SpacyLoad dir) = [dir]"
| "dir_args c = []"

text \<open>The \<^verbatim>\<open>Language\<close> object on which a call is made, if it is a method of one.\<close>

fun receiver :: "call \<Rightarrow> language list" where
  "receiver (BeginTraining nlp) = [nlp]"
| "receiver (MakeDoc nlp raw_text) = [nlp]"
| "receiver (Update nlp docs golds l sgd us dr) = [nlp]"
| "receiver (ToDisk nlp dir) = [nlp]"
| "receiver (NlpCall nlp text) = [nlp]"
| "receiver c = []"

subsection \<open>Exceptions that nobody catches\<close>

text \<open>
  \<open>uncaught L h cs r\<close>: the calls \<open>cs\<close>, made one after the other after the calls \<open>h\<close>,
  and the outcome \<open>r\<close> fit a run that catches nothing and raises nothing of its own. Every
  call but the last returns; when the last call raises, the run ends there with that
  exception; when it returns, the run returns.
\<close>

fun uncaught :: "'g lib \<Rightarrow> call list \<Rightarrow> call list \<Rightarrow> exn option \<Rightarrow> bool" where
  "uncaught L h [] r = (r = None)"
| "uncaught L h (c # cs) r =
     (case raises L h c of
        Some e \<Rightarrow> cs = [] \<and> r = Some e
      | None \<Rightarrow> uncaught L (h @ [c]) cs r)"

text \<open>
  Statement \<open>p\<close>, from any state, only adds calls, all of them of kind \<open>A\<close>, and catches
  nothing.
\<close>

definition traced :: "'g lib \<Rightarrow> (call \<Rightarrow> bool) \<Rightarrow> ('a, 'g) prog \<Rightarrow> bool" where
  "traced L A p \<longleftrightarrow>
     (\<forall>s. \<exists>new. calls (snd (p s)) = calls s @ new \<and> list_all A new \<and>
                 uncaught L (calls s) new (outcome (fst (p s))))"

text \<open>Statement \<open>p\<close> keeps a property of the two shared objects, however it ends.\<close>

definition keeps :: "(language \<Rightarrow> example list \<Rightarrow> bool) \<Rightarrow> ('a, 'g) prog \<Rightarrow> bool" where
  "keeps P p \<longleftrightarrow>
     (\<forall>s. P (nlp_obj s) (train_data_obj s) \<longrightarrow>
          P (nlp_obj (snd (p s))) (train_data_obj (snd (p s))))"

text \<open>
  Statement \<open>p\<close> only adds calls, makes its method calls on the \<^verbatim>\<open>nlp\<close> object as it
  finds it, and leaves that object as it is, however it ends.
\<close>

definition serves :: "('a, 'g) prog \<Rightarrow> bool" where
  "serves p \<longleftrightarrow>
     (\<forall>s. \<exists>new. calls (snd (p s)) = calls s @ new \<and>
                 list_all (\<lambda>c. set (receiver c) \<subseteq> {nlp_obj s}) new \<and>
                 nlp_obj (snd (p s)) = nlp_obj s)"

subsection \<open>The parts of a run of main\<close>

text \<open>The \<^verbatim>\<open>nlp\<close> object once \<^verbatim>\<open>train_ner\<close> has named it.\<close>

definition named :: "language \<Rightarrow> language" where
  "named nlp = nlp\<lparr>meta := AList.update ''name'' (PyStr ''en_ent_animal'') (meta nlp)\<rparr>"

text \<open>
  The calls that save the pipeline \<open>nlp\<close> to \<open>output_dir\<close> after the calls \<open>h\<close>: none
  without a directory; otherwise the test for the directory, its creation when the test
  says it is missing, and the write.
\<close>

definition save_calls :: "'g lib \<Rightarrow> call list \<Rightarrow> language \<Rightarrow> pyval \<Rightarrow> call list" where
  "save_calls L h nlp output_dir =
     (case output_dir of
        PyPath p \<Rightarrow>
          PathExists p # (if exists_reply L (h @ [PathExists p]) then [] else [PathMkdir p]) @
          [ToDisk nlp output_dir]
      | _ \<Rightarrow> [])"

text \<open>The directory that \<^verbatim>\<open>main\<close> works with, from its second argument.\<close>

definition dir_of :: "string option \<Rightarrow> pyval" where
  "dir_of output_directory =
     (case output_directory of None \<Rightarrow> PyNone | Some d \<Rightarrow> PyPath (Path d))"

text \<open>
  The blank pipeline that \<^verbatim>\<open>spacy.blank\<close> returns to \<^verbatim>\<open>main\<close> started after the calls
  \<open>h\<close>, the pipeline with the two components appended, and the calls of \<^verbatim>\<open>main\<close> up to
  the training.
\<close>

definition blank_nlp :: "'g lib \<Rightarrow> call list \<Rightarrow> string \<Rightarrow> language" where
  "blank_nlp L h model_name =
     blank_reply L
       (h @ [Print [PyStr ''Creating initial model'', PyStr model_name], SpacyBlank model_name])"

definition with_pipes :: "language \<Rightarrow> language" where
  "with_pipes nlp = nlp\<lparr>pipeline := pipeline nlp @
     [TokenVectorEncoder (vocab nlp), NeuralEntityRecognizer (vocab nlp)]\<rparr>"

definition setup_calls :: "string \<Rightarrow> language \<Rightarrow> call list" where
  "setup_calls model_name nlp =
     [Print [PyStr ''Creating initial model'', PyStr model_name],
      SpacyBlank model_name,
      NewTokenVectorEncoder (vocab nlp),
      NewNeuralEntityRecognizer (vocab nlp),
      AddLabel (NeuralEntityRecognizer (vocab nlp)) ''ANIMAL'']"

text \<open>
  The line printed for an entity, the calls of the test of the trained pipeline, and the
  calls that reload the pipeline from \<open>dir\<close> and test it, each after the calls \<open>h\<close>.
\<close>

definition print_ent :: "string \<times> string \<Rightarrow> call" where
  "print_ent = (\<lambda>(label, text). Print [PyStr label, PyStr text])"

definition test_calls :: "'g lib \<Rightarrow> call list \<Rightarrow> language \<Rightarrow> call list" where
  "test_calls L h nlp =
     [Print [PyStr ''Ents in 'Do you like horses?':''], NlpCall nlp ''Do you like horses?''] @
     map print_ent (ents_reply L
        (h @ [Print [PyStr ''Ents in 'Do you like horses?':''], NlpCall nlp ''Do you like horses?'']))"

definition reload_calls :: "'g lib \<Rightarrow> call list \<Rightarrow> pyval \<Rightarrow> call list" where
  "reload_calls L h dir =
     [Print [PyStr ''Loading from'', dir], SpacyLoad dir,
      NlpCall (load_reply L (h @ [Print [PyStr ''Loading from'', dir], SpacyLoad dir]))
        ''Do you like horses?''] @
     map print_ent (ents_reply L
        (h @ [Print [PyStr ''Loading from'', dir], SpacyLoad dir,
              NlpCall (load_reply L (h @ [Print [PyStr ''Loading from'', dir], SpacyLoad dir]))
                ''Do you like horses?'']))"

subsection \<open>A library to run the script with\<close>

text \<open>
  A library in which no call raises, \<^verbatim>\<open>random.shuffle\<close> rotates the list by one place,
  no directory exists and every text holds the entity "horses"; and a state to start from.
\<close>

definition demo_nlp :: language where
  "demo_nlp = \<lparr>vocab = Vocab ''en'', pipeline = [], meta = []\<rparr>"

definition demo_lib :: "nat lib" where
  "demo_lib = \<lparr>raises = (\<lambda>h c. None), seed_reply = (\<lambda>a. nat a),
     shuffle_reply = (\<lambda>g xs. (rotate1 xs, Suc g)),
     blank_reply = (\<lambda>h. demo_nlp),
     load_reply = (\<lambda>h. demo_nlp),
     begin_training_reply = (\<lambda>h. Optimizer 0),
     update_reply = (\<lambda>h. [(''ner'', 1)]),
     exists_reply = (\<lambda>h. False),
     ents_reply = (\<lambda>h. [(''ANIMAL'', ''horses'')]),
     plac_reply = (\<lambda>h. [''en''])\<rparr>"

definition demo_state :: "nat state" where
  "demo_state = \<lparr>rng = 7, calls = [], nlp_obj = demo_nlp, train_data_obj = train_data\<rparr>"

text \<open>
  A second library, with the same \<^verbatim>\<open>random\<close> module, in which every directory exists and
  the updates report no losses, and a second state with another generator, another history
  and another pipeline.
\<close>

definition other_lib :: "nat lib" where
  "other_lib = demo_lib\<lparr>update_reply := (\<lambda>h. []), exists_reply := (\<lambda>h. True)\<rparr>"

definition other_state :: "nat state" where
  "other_state = \<lparr>rng = 99, calls = [Print [PyStr ''earlier'']], nlp_obj = with_pipes demo_nlp,
     train_data_obj = train_data\<rparr>"

text \<open>A library in which every \<^verbatim>\<open>nlp.update\<close> raises.\<close>

definition fail_lib :: "nat lib" where
  "fail_lib = demo_lib\<lparr>raises := (\<lambda>h c.
     case c of Update nlp docs golds l sgd us dr \<Rightarrow> Some (LibraryError ''out of memory'')
             | _ \<Rightarrow> None)\<rparr>"

text \<open>A library in which \<^verbatim>\<open>spacy.blank\<close> raises.\<close>

definition no_model_lib :: "nat lib" where
  "no_model_lib = demo_lib\<lparr>raises := (\<lambda>h c.
     case c of SpacyBlank name \<Rightarrow> Some (LibraryError ''no such language'')
             | _ \<Rightarrow> None)\<rparr>"

text \<open>A command line with an output directory, and a library in which plac reads it.\<close>

definition cli_argv :: "string list" where
  "cli_argv = [''train_new_entity_type.py'', ''en'', ''out'']"

definition cli_lib :: "nat lib" where
  "cli_lib = demo_lib\<lparr>plac_reply := (\<lambda>h. [''en'', ''out''])\<rparr>"

section \<open>Properties of the model\<close>

subsection \<open>Statements that return\<close>

text \<open>
  What it means for a composed statement to return, and the single steps of \<^verbatim>\<open>main\<close>
  that cannot raise.
\<close>

lemma andthen_Inr:
  "andthen m f s = (Inr y, s') \<longleftrightarrow> (\<exists>x s1. m s = (Inr x, s1) \<and> f x s1 = (Inr y, s'))"
  by (auto simp: andthen_def split: prod.splits sum.splits)

lemma invoke_Inr:
  "invoke L c r s = (Inr v, s') \<longleftrightarrow>
     raises L (calls s) c = None \<and> v = r (calls s @ [c]) \<and> s' = s\<lparr>calls := calls s @ [c]\<rparr>"
  by (auto simp: invoke_def Let_def split: option.splits)

lemma ret_Inr: "ret x s = (Inr y, s') \<longleftrightarrow> y = x \<and> s' = s"
  by (auto simp: ret_def)

lemma andthen_invoke_Inr:
  "andthen (\<lambda>s. invoke L (c s) (r s) s) f s = (Inr y, s') \<longleftrightarrow>
     raises L (calls s) (c s) = None \<and>
     f (r s (calls s @ [c s])) (s\<lparr>calls := calls s @ [c s]\<rparr>) = (Inr y, s')"
  by (auto simp: andthen_Inr invoke_Inr)

lemma andthen_call_Inr:
  "andthen (invoke L c r) f s = (Inr y, s') \<longleftrightarrow>
     raises L (calls s) c = None \<and>
     f (r (calls s @ [c])) (s\<lparr>calls := calls s @ [c]\<rparr>) = (Inr y, s')"
  by (auto simp: andthen_Inr invoke_Inr)

lemma andthen_assign_nlp: "andthen (assign_nlp n) f s = f () (s\<lparr>nlp_obj := n\<rparr>)"
  by (simp add: andthen_def assign_nlp_def)

lemma andthen_assign_train_data:
  "andthen (assign_train_data xs) f s = f () (s\<lparr>train_data_obj := xs\<rparr>)"
  by (simp add: andthen_def assign_train_data_def)

lemma andthen_pipeline_append:
  "andthen (pipeline_append p) f s =
     f () (s\<lparr>nlp_obj := (nlp_obj s)\<lparr>pipeline := pipeline (nlp_obj s) @ [p]\<rparr>\<rparr>)"
  by (simp add: andthen_def pipeline_append_def)

lemma append_then_last:
  "andthen (pipeline_append p) (\<lambda>_. andthen pipeline_last f) = andthen (pipeline_append p) (\<lambda>_. f p)"
  by (rule ext) (simp add: andthen_def pipeline_append_def pipeline_last_def)

subsection \<open>Batches\<close>

text \<open>
  \<open>minibatch\<close> cuts the computations the way \<open>chunks\<close> cuts the values; no batch is empty
  or longer than asked for, and all are full when the size divides the length.
\<close>

lemma minibatch_map:
  "minibatch n (map f xs) = map (\<lambda>c. pull (map f c)) (chunks n xs)"
proof (induction n xs rule: chunks.induct)
  case (1 n xs)
  show ?case
    by (subst minibatch.simps, subst chunks.simps)
       (use 1 in \<open>simp add: take_map drop_map Let_def\<close>)
qed

lemma chunks_no_empty: "[] \<notin> set (chunks n xs)"
  by (induction n xs rule: chunks.induct) (subst chunks.simps, auto)

lemma chunks_sizes: "c \<in> set (chunks n xs) \<Longrightarrow> c \<noteq> [] \<and> length c \<le> n"
proof (induction n xs rule: chunks.induct)
  case (1 n xs)
  from "1.prems" have "take n xs \<noteq> []"
    by (subst (asm) chunks.simps) (auto split: if_splits)
  with 1 show ?case
    by (subst (asm) (2) chunks.simps) (auto split: if_splits)
qed

lemma chunks_dvd: "n dvd length xs \<Longrightarrow> c \<in> set (chunks n xs) \<Longrightarrow> length c = n"
proof (induction n xs rule: chunks.induct)
  case (1 n xs)
  from "1.prems"(2) have ne: "take n xs \<noteq> []"
    by (subst (asm) chunks.simps) (auto split: if_splits)
  then have "n \<le> length xs" using "1.prems"(1)
    by (cases "xs = []") (auto dest: dvd_imp_le)
  moreover from this "1.prems"(1) have "n dvd length (drop n xs)"
    by (simp add: dvd_diff_nat)
  ultimately show ?case using 1 ne
    by (subst (asm) (2) chunks.simps) (auto split: if_splits)
qed

subsection \<open>Steps of a list of calls\<close>

text \<open>
  How \<open>steps\<close> and \<open>first_losses\<close> go through a list of calls that is put together from
  parts.
\<close>

lemma steps_Nil [simp]: "steps [] = []"
  by (simp add: steps_def)

lemma steps_Cons [simp]: "steps (c # cs) = step_of c @ steps cs"
  by (simp add: steps_def)

lemma steps_append [simp]: "steps (xs @ ys) = steps xs @ steps ys"
  by (simp add: steps_def)

lemma steps_items [simp]: "steps (concat (map (item_calls nlp) xs)) = []"
  by (induction xs) (auto simp: item_calls_def)

lemma first_losses_append:
  "first_losses b (xs @ ys) = first_losses b xs @ first_losses (flag_after b xs) ys"
  by (induction b xs rule: first_losses.induct) auto

lemma first_losses_items [simp]:
  "first_losses b (concat (map (item_calls nlp) xs) @ ys) = first_losses b ys"
  by (induction xs) (auto simp: item_calls_def)

lemma steps_save [simp]: "steps (save_calls L h nlp output_dir) = []"
  by (cases output_dir) (simp_all add: save_calls_def)

lemma first_losses_save [simp]: "first_losses b (save_calls L h nlp output_dir) = []"
  by (cases output_dir) (simp_all add: save_calls_def)

lemma filter_steps_epochs:
  "length (filter is_Report (concat (map (\<lambda>k. epoch_steps (f k) (g k)) ks))) = length ks"
  "length (filter is_Shuffle (concat (map (\<lambda>k. epoch_steps (f k) (g k)) ks))) = length ks"
  "list_all batch_ok (concat (map (\<lambda>k. epoch_steps (f k) (g k)) ks))"
  by (induction ks) (auto simp: epoch_steps_def filter_map comp_def list_all_iff dest: chunks_sizes)

lemma list_all_filter_empty: "list_all (\<lambda>c. \<not> P c) cs \<Longrightarrow> filter P cs = []"
  by (induction cs) auto

subsection \<open>The loops, when they return\<close>

text \<open>
  The calls that the generator, a batch, the batches of an epoch and the epochs add in a
  run that returns, and what they leave in the state.
\<close>

lemma item_Inr:
  "get_gold_parses_item L (make_doc L) x s = (Inr b, s') \<Longrightarrow>
     b = gold_of x \<and> s' = s\<lparr>calls := calls s @ item_calls (nlp_obj s) x\<rparr>"
  by (cases x) (auto simp: get_gold_parses_item_def make_doc_def new_GoldParse_def andthen_Inr invoke_Inr ret_Inr gold_of_def item_calls_def)

lemma pull_Inr:
  "pull (map (get_gold_parses_item L (make_doc L)) xs) s = (Inr b, s') \<Longrightarrow>
     b = map gold_of xs \<and> s' = s\<lparr>calls := calls s @ concat (map (item_calls (nlp_obj s)) xs)\<rparr>"
proof (induction xs arbitrary: s b)
  case Nil
  then show ?case by (simp add: ret_Inr)
next
  case (Cons x xs)
  from Cons.prems obtain y s1 ys where
    a: "get_gold_parses_item L (make_doc L) x s = (Inr y, s1)"
    and b: "pull (map (get_gold_parses_item L (make_doc L)) xs) s1 = (Inr ys, s')"
    and c: "b = y # ys"
    by (auto simp: andthen_Inr ret_Inr)
  from item_Inr[OF a] Cons.IH[OF b] c show ?case by simp
qed

lemma for_batch_Inr:
  "for_batch L opt l (map (\<lambda>c. pull (map (get_gold_parses_item L (make_doc L)) c)) cs) s = (Inr l', s')
   \<Longrightarrow> [] \<notin> set cs
   \<Longrightarrow> \<exists>new. s' = s\<lparr>calls := calls s @ new\<rparr> \<and>
         steps new = map (\<lambda>c. Present (map gold_of c)) cs \<and>
         first_losses b new = (if b \<and> cs \<noteq> [] then [l] else [])"
proof (induction cs arbitrary: l s b)
  case Nil
  then show ?case by (auto simp: ret_Inr intro!: exI[of _ "[]"])
next
  case (Cons c cs)
  from Cons.prems obtain batch s1 docs golds s2 l1 where
    p: "pull (map (get_gold_parses_item L (make_doc L)) c) s = (Inr batch, s1)"
    and z: "zip_star batch s1 = (Inr (docs, golds), s1)"
    and u: "nlp_update L docs golds l opt True (35 / 100) s1 = (Inr l1, s2)"
    and r: "for_batch L opt l1 (map (\<lambda>c. pull (map (get_gold_parses_item L (make_doc L)) c)) cs) s2 = (Inr l', s')"
    by (auto simp: andthen_Inr zip_star_def ret_Inr raise_def split: if_splits)
  from pull_Inr[OF p] have b: "batch = map gold_of c"
    and s1: "s1 = s\<lparr>calls := calls s @ concat (map (item_calls (nlp_obj s)) c)\<rparr>" by auto
  from z have dg: "docs = map fst batch" "golds = map snd batch"
    by (auto simp: zip_star_def ret_Inr raise_def split: if_splits)
  from u have s2: "s2 = s1\<lparr>calls := calls s1 @ [Update (nlp_obj s1) docs golds l opt True (35 / 100)]\<rparr>"
    by (auto simp: nlp_update_def invoke_Inr)
  from Cons.prems have "[] \<notin> set cs" by auto
  from Cons.IH[OF r this, of False] obtain new where
    n: "s' = s2\<lparr>calls := calls s2 @ new\<rparr>" "steps new = map (\<lambda>c. Present (map gold_of c)) cs"
       "first_losses False new = []" by auto
  let ?new = "concat (map (item_calls (nlp_obj s)) c) @ Update (nlp_obj s1) docs golds l opt True (35 / 100) # new"
  have "s' = s\<lparr>calls := calls s @ ?new\<rparr>" using n(1) s2 s1 by simp
  moreover have "zip docs golds = map gold_of c"
    unfolding dg b[symmetric] by (rule zip_map_fst_snd)
  then have "steps ?new = map (\<lambda>c. Present (map gold_of c)) (c # cs)"
    using n(2) by simp
  moreover have "first_losses b ?new = (if b \<and> c # cs \<noteq> [] then [l] else [])"
    using n(3) by simp
  ultimately show ?case by blast
qed

lemma for_itn_Inr:
  "for_itn L opt n s = (Inr u, s') \<Longrightarrow>
   \<exists>new. s' = s\<lparr>rng := snd ((shuffle_once L ^^ n) (train_data_obj s, rng s)),
                 calls := calls s @ new,
                 train_data_obj := fst ((shuffle_once L ^^ n) (train_data_obj s, rng s))\<rparr> \<and>
         steps new = concat (map (\<lambda>k. epoch_steps (fst ((shuffle_once L ^^ k) (train_data_obj s, rng s)))
                                                    (fst ((shuffle_once L ^^ Suc k) (train_data_obj s, rng s)))) [0..<n]) \<and>
         first_losses b new = concat (map (\<lambda>k. if fst ((shuffle_once L ^^ Suc k) (train_data_obj s, rng s)) = [] then [] else [[]]) [0..<n])"
proof (induction n arbitrary: s b)
  case 0
  then show ?case by (auto simp: ret_Inr intro!: exI[of _ "[]"])
next
  case (Suc n)
  let ?A = "\<lambda>k. (shuffle_once L ^^ k) (train_data_obj s, rng s)"
  from Suc.prems obtain items s1 l s2 s3 where
    g: "get_gold_parses L (make_doc L) s = (Inr items, s1)"
    and f: "for_batch L opt [] (minibatch 3 items) s1 = (Inr l, s2)"
    and p: "print L [PyDict l] s2 = (Inr (), s3)"
    and r: "for_itn L opt n s3 = (Inr u, s')"
    by (auto simp: andthen_Inr)
  from g have s1: "s1 = s\<lparr>rng := snd (?A 1), calls := calls s @ [RandomShuffle (train_data_obj s)], train_data_obj := fst (?A 1)\<rparr>"
    and items: "items = map (get_gold_parses_item L (make_doc L)) (fst (?A 1))"
    by (auto simp: get_gold_parses_def random_shuffle_def andthen_Inr invoke_Inr shuffle_once_def split: prod.splits)
  from f have f': "for_batch L opt [] (map (\<lambda>c. pull (map (get_gold_parses_item L (make_doc L)) c)) (chunks 3 (fst (?A 1)))) s1 = (Inr l, s2)"
    by (simp add: items minibatch_map)
  from for_batch_Inr[OF f' chunks_no_empty, of True] obtain new1 where
    n1: "s2 = s1\<lparr>calls := calls s1 @ new1\<rparr>" "steps new1 = map (\<lambda>c. Present (map gold_of c)) (chunks 3 (fst (?A 1)))"
        "first_losses True new1 = (if chunks 3 (fst (?A 1)) \<noteq> [] then [[]] else [])" by auto
  from p have s3: "s3 = s2\<lparr>calls := calls s2 @ [Print [PyDict l]]\<rparr>"
    by (auto simp: print_def invoke_Inr)
  have A1: "(train_data_obj s3, rng s3) = ?A 1" using s3 n1(1) s1 by simp
  have shift: "\<And>k. (shuffle_once L ^^ k) (train_data_obj s3, rng s3) = ?A (Suc k)"
    unfolding A1 by (simp add: funpow_swap1)
  from Suc.IH[OF r, of "flag_after False (RandomShuffle (train_data_obj s) # new1 @ [Print [PyDict l]])"] obtain new2 where
    n2: "s' = s3\<lparr>rng := snd (?A (Suc n)), calls := calls s3 @ new2, train_data_obj := fst (?A (Suc n))\<rparr>"
        "steps new2 = concat (map (\<lambda>k. epoch_steps (fst (?A (Suc k))) (fst (?A (Suc (Suc k))))) [0..<n])"
        "first_losses (flag_after False (RandomShuffle (train_data_obj s) # new1 @ [Print [PyDict l]])) new2 = concat (map (\<lambda>k. if fst (?A (Suc (Suc k))) = [] then [] else [[]]) [0..<n])"
    unfolding shift by auto
  let ?new = "(RandomShuffle (train_data_obj s) # new1 @ [Print [PyDict l]]) @ new2"
  have "s' = s\<lparr>rng := snd (?A (Suc n)), calls := calls s @ ?new, train_data_obj := fst (?A (Suc n))\<rparr>"
    using n2(1) s3 n1(1) s1 by simp
  moreover have "steps ?new = concat (map (\<lambda>k. epoch_steps (fst (?A k)) (fst (?A (Suc k)))) [0..<Suc n])"
    unfolding map_upt_Suc using n2(2) n1(2) by (simp add: epoch_steps_def)
  moreover have "chunks 3 (fst (?A 1)) \<noteq> [] \<longleftrightarrow> fst (?A 1) \<noteq> []"
    by (subst chunks.simps) simp
  then have "first_losses b ?new = concat (map (\<lambda>k. if fst (?A (Suc k)) = [] then [] else [[]]) [0..<Suc n])"
    unfolding map_upt_Suc first_losses_append[of b "RandomShuffle (train_data_obj s) # new1 @ [Print [PyDict l]]"]
    using n2(3) n1(3) by (simp add: first_losses_append[of True new1])
  ultimately show ?case by blast
qed

lemma for_ent_Inr:
  "for_ent L ents s = (Inr u, s') \<Longrightarrow> s' = s\<lparr>calls := calls s @ map print_ent ents\<rparr>"
proof (induction ents arbitrary: s)
  case Nil
  then show ?case by (simp add: ret_Inr)
next
  case (Cons e ents)
  obtain lb tx where e: "e = (lb, tx)" by (cases e)
  from Cons.prems obtain s1 where
    a: "print L [PyStr lb, PyStr tx] s = (Inr (), s1)" and b: "for_ent L ents s1 = (Inr u, s')"
    by (auto simp: e andthen_Inr)
  from a have "s1 = s\<lparr>calls := calls s @ [print_ent e]\<rparr>"
    by (simp add: print_def invoke_Inr print_ent_def e)
  with Cons.IH[OF b] show ?case by simp
qed

subsection \<open>Nothing is caught\<close>

text \<open>
  Every statement of the script only adds calls and passes on the first exception; the
  rules follow the structure of the statements.
\<close>

lemma uncaught_append:
  "uncaught L h xs None \<Longrightarrow> uncaught L (h @ xs) ys r \<Longrightarrow> uncaught L h (xs @ ys) r"
  by (induction xs arbitrary: h) (auto split: option.splits)

lemma outcome_simps [simp]: "outcome (Inl e) = Some e" "outcome (Inr x) = None"
  by (simp_all add: outcome_def)

lemma uncaught_quiet:
  "(\<And>h c. raises L h c = None) \<Longrightarrow> uncaught L h new r \<Longrightarrow> r = None"
  by (induction new arbitrary: h) auto

lemma traced_ret: "traced L A (ret x)"
  by (simp add: traced_def ret_def)

lemma traced_pure:
  "(\<And>s. fst (p s) = Inr (v s) \<and> calls (snd (p s)) = calls s) \<Longrightarrow> traced L A p"
  by (simp add: traced_def)

lemma traced_invoke: "(\<And>s. A (c s)) \<Longrightarrow> traced L A (\<lambda>s. invoke L (c s) (r s) s)"
  unfolding traced_def
proof
  fix s
  assume a: "\<And>s. A (c s)"
  show "\<exists>new. calls (snd (invoke L (c s) (r s) s)) = calls s @ new \<and> list_all A new \<and>
          uncaught L (calls s) new (outcome (fst (invoke L (c s) (r s) s)))"
    by (rule exI[of _ "[c s]"]) (simp add: invoke_def Let_def a split: option.splits)
qed

lemma traced_andthen_val:
  assumes m: "traced L A m"
    and f: "\<And>x s s'. m s = (Inr x, s') \<Longrightarrow> traced L A (f x)"
  shows "traced L A (andthen m f)"
  unfolding traced_def
proof
  fix s
  from m obtain new1 where
    n1: "calls (snd (m s)) = calls s @ new1" "list_all A new1"
        "uncaught L (calls s) new1 (outcome (fst (m s)))"
    unfolding traced_def by blast
  show "\<exists>new. calls (snd (andthen m f s)) = calls s @ new \<and> list_all A new \<and>
          uncaught L (calls s) new (outcome (fst (andthen m f s)))"
  proof (cases "m s")
    case (Pair r s1)
    show ?thesis
    proof (cases r)
      case (Inl e)
      with Pair n1 show ?thesis by (auto simp: andthen_def)
    next
      case (Inr x)
      from f[of s x s1] Pair Inr have "traced L A (f x)" by simp
      then obtain new2 where
        n2: "calls (snd (f x s1)) = calls s1 @ new2" "list_all A new2"
            "uncaught L (calls s1) new2 (outcome (fst (f x s1)))"
        unfolding traced_def by blast
      have "calls (snd (andthen m f s)) = calls s @ (new1 @ new2)"
        using Pair Inr n1(1) n2(1) by (simp add: andthen_def)
      moreover have "list_all A (new1 @ new2)" using n1(2) n2(2) by simp
      moreover have "uncaught L (calls s) (new1 @ new2) (outcome (fst (andthen m f s)))"
        using Pair Inr n1(1,3) n2(3) by (auto simp: andthen_def intro: uncaught_append)
      ultimately show ?thesis by blast
    qed
  qed
qed

lemma traced_andthen:
  "traced L A m \<Longrightarrow> (\<And>x. traced L A (f x)) \<Longrightarrow> traced L A (andthen m f)"
  by (rule traced_andthen_val)

lemma traced_mono: "traced L A p \<Longrightarrow> (\<And>c. A c \<Longrightarrow> B c) \<Longrightarrow> traced L B p"
  unfolding traced_def list_all_iff by blast

lemma traced_call: "A c \<Longrightarrow> traced L A (invoke L c r)"
  using traced_invoke[of A "\<lambda>_. c" L "\<lambda>_. r"] by simp

lemma traced_print: "A (Print objs) \<Longrightarrow> traced L A (print L objs)"
  unfolding print_def by (rule traced_call)

lemma traced_random_seed: "A (RandomSeed a) \<Longrightarrow> traced L A (random_seed L a)"
  unfolding random_seed_def
  by (intro traced_andthen traced_call traced_pure[where v = "\<lambda>_. ()"]) simp_all

lemma traced_random_shuffle:
  "(\<And>xs. A (RandomShuffle xs)) \<Longrightarrow> traced L A (random_shuffle L)"
proof -
  assume a: "\<And>xs. A (RandomShuffle xs)"
  have eq: "random_shuffle L =
      andthen (\<lambda>s. invoke L (RandomShuffle (train_data_obj s)) (\<lambda>_. ()) s)
       (\<lambda>_ s'. case shuffle_reply L (rng s') (train_data_obj s') of
          (xs, g) \<Rightarrow> (Inr (), s'\<lparr>rng := g, train_data_obj := xs\<rparr>))"
    by (rule ext) (simp add: random_shuffle_def andthen_def invoke_def Let_def split: option.splits)
  show ?thesis
    unfolding eq
    by (intro traced_andthen traced_invoke[where r = "\<lambda>_ _. ()"] traced_pure[where v = "\<lambda>_. ()"] a)
       (simp_all split: prod.splits)
qed

lemma traced_item:
  "(\<And>nlp t. A (MakeDoc nlp t)) \<Longrightarrow> (\<And>d e. A (NewGoldParse d e)) \<Longrightarrow>
   traced L A (get_gold_parses_item L (make_doc L) x)"
  unfolding get_gold_parses_item_def make_doc_def new_GoldParse_def
  by (cases x) (auto intro!: traced_andthen traced_invoke traced_call traced_ret)

lemma traced_pull:
  "(\<And>item. item \<in> set items \<Longrightarrow> traced L A item) \<Longrightarrow> traced L A (pull items)"
  by (induction items) (auto intro!: traced_andthen traced_ret)

lemma traced_for_batch:
  assumes "\<And>nlp t. A (MakeDoc nlp t)" "\<And>d e. A (NewGoldParse d e)"
    and "\<And>nlp docs golds l sgd us dr. A (Update nlp docs golds l sgd us dr)"
    and "[] \<notin> set cs"
  shows "traced L A (for_batch L opt l (map (\<lambda>c. pull (map (get_gold_parses_item L (make_doc L)) c)) cs))"
  using assms(4)
proof (induction cs arbitrary: l)
  case Nil
  show ?case by (simp add: traced_ret)
next
  case (Cons c cs)
  have p: "traced L A (pull (map (get_gold_parses_item L (make_doc L)) c))"
    by (rule traced_pull) (auto intro: traced_item assms(1,2))
  have rest: "\<And>l. traced L A (for_batch L opt l (map (\<lambda>c. pull (map (get_gold_parses_item L (make_doc L)) c)) cs))"
    using Cons by simp
  have z: "\<And>batch. batch \<noteq> [] \<Longrightarrow>
      traced L A (andthen (zip_star batch) (\<lambda>(docs, golds).
        andthen (nlp_update L docs golds l opt True (35 / 100)) (\<lambda>losses'.
        for_batch L opt losses' (map (\<lambda>c. pull (map (get_gold_parses_item L (make_doc L)) c)) cs))))"
    unfolding zip_star_def nlp_update_def
    by (auto intro!: traced_andthen traced_ret traced_invoke rest assms(3))
  show ?case
    unfolding list.map for_batch.simps
  proof (rule traced_andthen_val[OF p])
    fix batch s s'
    assume "pull (map (get_gold_parses_item L (make_doc L)) c) s = (Inr batch, s')"
    from pull_Inr[OF this] Cons.prems have "batch \<noteq> []" by auto
    then show "traced L A (andthen (zip_star batch) (\<lambda>(docs, golds).
        andthen (nlp_update L docs golds l opt True (35 / 100)) (\<lambda>losses'.
        for_batch L opt losses' (map (\<lambda>c. pull (map (get_gold_parses_item L (make_doc L)) c)) cs))))"
      by (rule z)
  qed
qed

lemma traced_get_gold_parses: "traced L epoch_call (get_gold_parses L (make_doc L))"
  unfolding get_gold_parses_def
  by (intro traced_andthen traced_random_shuffle
        traced_pure[where v = "\<lambda>s. map (get_gold_parses_item L (make_doc L)) (train_data_obj s)"])
     simp_all

lemma traced_for_itn: "traced L epoch_call (for_itn L opt n)"
proof (induction n)
  case 0
  show ?case by (simp add: traced_ret)
next
  case (Suc n)
  have g: "traced L epoch_call (get_gold_parses L (make_doc L))"
    unfolding get_gold_parses_def
    by (intro traced_andthen traced_random_shuffle traced_pure[where v = "\<lambda>s. map (get_gold_parses_item L (make_doc L)) (train_data_obj s)"]) simp_all
  show ?case
    unfolding for_itn.simps
  proof (rule traced_andthen_val[OF g])
    fix items s s'
    assume "get_gold_parses L (make_doc L) s = (Inr items, s')"
    then have items: "items = map (get_gold_parses_item L (make_doc L)) (train_data_obj s')"
      by (auto simp: get_gold_parses_def andthen_Inr)
    show "traced L epoch_call (andthen (for_batch L opt [] (minibatch 3 items)) (\<lambda>losses.
            andthen (print L [PyDict losses]) (\<lambda>_. for_itn L opt n)))"
      unfolding items minibatch_map
      by (intro traced_andthen traced_for_batch traced_print Suc chunks_no_empty) simp_all
  qed
qed

lemma epoch_training: "epoch_call c \<Longrightarrow> training_call c"
  by (cases c) auto

lemma training_not_path: "training_call c \<Longrightarrow> \<not> path_call c"
  by (cases c) (auto elim: epoch_call.elims)

lemma traced_begin_training:
  "(\<And>nlp. A (BeginTraining nlp)) \<Longrightarrow> traced L A (begin_training L)"
  unfolding begin_training_def by (rule traced_invoke)

lemma traced_set_meta: "traced L A (set_meta k v)"
  unfolding set_meta_def by (rule traced_pure[where v = "\<lambda>_. ()"]) simp

lemma traced_assign_nlp: "traced L A (assign_nlp nlp)"
  unfolding assign_nlp_def by (rule traced_pure[where v = "\<lambda>_. ()"]) simp

lemma traced_assign_train_data: "traced L A (assign_train_data xs)"
  unfolding assign_train_data_def by (rule traced_pure[where v = "\<lambda>_. ()"]) simp

lemma traced_pipeline_append: "traced L A (pipeline_append p)"
  unfolding pipeline_append_def by (rule traced_pure[where v = "\<lambda>_. ()"]) simp

lemma traced_to_disk: "(\<And>nlp. A (ToDisk nlp dir)) \<Longrightarrow> traced L A (to_disk L dir)"
  unfolding to_disk_def by (rule traced_invoke)

lemma traced_train_ner_falsy:
  assumes "\<not> truthy output_dir"
  shows "traced L training_call (train_ner L output_dir)"
  unfolding train_ner_def using assms
  by (simp, intro traced_andthen traced_random_seed traced_begin_training traced_set_meta
        traced_ret traced_mono[OF traced_for_itn epoch_training]) simp_all

lemma traced_train_ner_path:
  "traced L (\<lambda>c. training_call c \<or> path_call c) (train_ner L (PyPath p))"
  unfolding train_ner_def path_exists_def path_mkdir_def
  by (simp, intro traced_andthen traced_random_seed traced_begin_training traced_set_meta
        traced_call traced_to_disk traced_mono[OF traced_for_itn])
     (auto simp: epoch_training intro!: traced_call traced_ret)

lemma traced_for_ent: "(\<And>objs. A (Print objs)) \<Longrightarrow> traced L A (for_ent L ents)"
  by (induction ents) (auto intro!: traced_andthen traced_ret traced_print)

lemma traced_main: "traced L (\<lambda>_. True) (main L model_name output_directory)"
proof (cases output_directory)
  case None
  show ?thesis
    unfolding main_def None Let_def option.case append_then_last
      spacy_blank_def new_TokenVectorEncoder_def new_NeuralEntityRecognizer_def add_label_def
      nlp_call_def
    by (simp, intro traced_andthen traced_print traced_call traced_invoke traced_for_ent
          traced_assign_nlp traced_assign_train_data traced_pipeline_append traced_ret
          traced_mono[OF traced_train_ner_falsy, of PyNone])
       simp_all
next
  case (Some d)
  show ?thesis
    unfolding main_def Some Let_def option.case append_then_last
      spacy_blank_def spacy_load_def new_TokenVectorEncoder_def new_NeuralEntityRecognizer_def
      add_label_def nlp_call_def
    by (simp, intro traced_andthen traced_print traced_call traced_invoke traced_for_ent
          traced_assign_nlp traced_assign_train_data traced_pipeline_append traced_ret
          traced_mono[OF traced_train_ner_path])
       simp_all
qed

lemma traced_returns:
  assumes "traced L A p" and "\<And>h c. raises L h c = None"
  shows "\<exists>x. fst (p s) = Inr x"
proof -
  from assms(1) obtain new where "uncaught L (calls s) new (outcome (fst (p s)))"
    unfolding traced_def by blast
  from uncaught_quiet[OF assms(2) this] show ?thesis
    by (cases "fst (p s)") auto
qed

lemma traced_new:
  assumes "traced L A p" and "calls (snd (p s)) = calls s @ new"
  shows "list_all A new"
proof -
  from assms(1) obtain new' where "calls (snd (p s)) = calls s @ new'" "list_all A new'"
    unfolding traced_def by blast
  with assms(2) show ?thesis by simp
qed

lemma traced_uncaught:
  assumes "traced L A p"
  shows "uncaught L (calls s) (new_calls p s) (outcome (fst (p s)))"
proof -
  from assms obtain new where "calls (snd (p s)) = calls s @ new"
    "uncaught L (calls s) new (outcome (fst (p s)))"
    unfolding traced_def by blast
  then show ?thesis by (simp add: new_calls_def)
qed

lemma traced_calls: "traced L A p \<Longrightarrow> calls (snd (p s)) = calls s @ new_calls p s"
  unfolding traced_def new_calls_def by (metis append_eq_conv_conj)

subsection \<open>train_ner and main, when they return\<close>

text \<open>
  The calls of a run of \<^verbatim>\<open>train_ner\<close> and of \<^verbatim>\<open>main\<close> that returns, part by part, and
  the state the run leaves.
\<close>

lemma train_ner_Inr:
  assumes "train_ner L output_dir s = (Inr u, s')"
  shows "\<exists>new.
     s' = s\<lparr>rng := snd ((shuffle_once L ^^ 50) (train_data_obj s, seed_reply L 0)),
             calls := calls s @ RandomSeed 0 # BeginTraining (nlp_obj s) # new @
               save_calls L (calls s @ RandomSeed 0 # BeginTraining (nlp_obj s) # new)
                 (named (nlp_obj s)) output_dir,
             nlp_obj := named (nlp_obj s),
             train_data_obj := fst ((shuffle_once L ^^ 50) (train_data_obj s, seed_reply L 0))\<rparr> \<and>
     steps new = concat (map (\<lambda>k. epoch_steps
         (fst ((shuffle_once L ^^ k) (train_data_obj s, seed_reply L 0)))
         (fst ((shuffle_once L ^^ Suc k) (train_data_obj s, seed_reply L 0)))) [0..<50]) \<and>
     first_losses False new = concat (map (\<lambda>k.
         if fst ((shuffle_once L ^^ Suc k) (train_data_obj s, seed_reply L 0)) = [] then [] else [[]])
         [0..<50]) \<and>
     list_all epoch_call new \<and>
     (truthy output_dir \<longrightarrow> (\<exists>p. output_dir = PyPath p))"
proof -
  let ?s3 = "s\<lparr>rng := seed_reply L 0, calls := calls s @ [RandomSeed 0, BeginTraining (nlp_obj s)],
               nlp_obj := named (nlp_obj s)\<rparr>"
  let ?opt = "begin_training_reply L (calls s @ [RandomSeed 0, BeginTraining (nlp_obj s)])"
  let ?tail = "if \<not> truthy output_dir then ret ()
     else (case output_dir of
         PyPath p \<Rightarrow>
           andthen (path_exists L p) (\<lambda>there.
           andthen (if \<not> there then path_mkdir L p else ret ()) (\<lambda>_.
           to_disk L output_dir))
       | _ \<Rightarrow> raise AttributeError)"
  from assms obtain s4 where
    f: "for_itn L ?opt 50 ?s3 = (Inr (), s4)" and t: "?tail s4 = (Inr u, s')"
    by (auto simp: train_ner_def random_seed_def begin_training_def set_meta_def named_def
          andthen_Inr invoke_Inr)
  from for_itn_Inr[OF f, of False] obtain new where
    n: "s4 = ?s3\<lparr>rng := snd ((shuffle_once L ^^ 50) (train_data_obj s, seed_reply L 0)),
                 calls := calls ?s3 @ new,
                 train_data_obj := fst ((shuffle_once L ^^ 50) (train_data_obj s, seed_reply L 0))\<rparr>"
       "steps new = concat (map (\<lambda>k. epoch_steps
         (fst ((shuffle_once L ^^ k) (train_data_obj s, seed_reply L 0)))
         (fst ((shuffle_once L ^^ Suc k) (train_data_obj s, seed_reply L 0)))) [0..<50])"
       "first_losses False new = concat (map (\<lambda>k.
         if fst ((shuffle_once L ^^ Suc k) (train_data_obj s, seed_reply L 0)) = [] then [] else [[]])
         [0..<50])"
    by auto
  have e: "list_all epoch_call new"
    by (rule traced_new[OF traced_for_itn, of L ?opt 50 ?s3]) (simp add: f n(1))
  have p: "truthy output_dir \<longrightarrow> (\<exists>p. output_dir = PyPath p)"
    using t by (cases output_dir) (auto simp: raise_def split: if_splits)
  have fin: "s' = s4\<lparr>calls := calls s4 @ save_calls L (calls s4) (nlp_obj s4) output_dir\<rparr>"
  proof (cases "truthy output_dir")
    case False
    with t show ?thesis by (cases output_dir) (auto simp: ret_Inr save_calls_def)
  next
    case True
    with p obtain q where q: "output_dir = PyPath q" by blast
    with t show ?thesis
      by (auto simp: save_calls_def andthen_Inr invoke_Inr ret_Inr path_exists_def
            path_mkdir_def to_disk_def split: if_splits)
  qed
  show ?thesis
    by (rule exI[of _ new]) (simp add: fin n e p)
qed

lemma train_ner_new:
  assumes "fst (train_ner L output_dir s) = Inr ()"
  shows "\<exists>new. new_calls (train_ner L output_dir) s =
           RandomSeed 0 # BeginTraining (nlp_obj s) # new @
             save_calls L (calls s @ RandomSeed 0 # BeginTraining (nlp_obj s) # new)
               (named (nlp_obj s)) output_dir \<and>
         steps new = concat (map (\<lambda>k. epoch_steps (shuffled L (train_data_obj s) k)
                                       (shuffled L (train_data_obj s) (Suc k))) [0..<50]) \<and>
         first_losses False new = concat (map (\<lambda>k.
            if shuffled L (train_data_obj s) (Suc k) = [] then [] else [[]]) [0..<50]) \<and>
         list_all epoch_call new \<and>
         (truthy output_dir \<longrightarrow> (\<exists>p. output_dir = PyPath p)) \<and>
         nlp_obj (snd (train_ner L output_dir s)) = named (nlp_obj s) \<and>
         train_data_obj (snd (train_ner L output_dir s)) = shuffled L (train_data_obj s) 50 \<and>
         rng (snd (train_ner L output_dir s)) =
           snd ((shuffle_once L ^^ 50) (train_data_obj s, seed_reply L 0))"
proof -
  from assms have "train_ner L output_dir s = (Inr (), snd (train_ner L output_dir s))"
    by (metis prod.collapse)
  from train_ner_Inr[OF this] obtain new where
    n: "snd (train_ner L output_dir s) =
          s\<lparr>rng := snd ((shuffle_once L ^^ 50) (train_data_obj s, seed_reply L 0)),
             calls := calls s @ RandomSeed 0 # BeginTraining (nlp_obj s) # new @
               save_calls L (calls s @ RandomSeed 0 # BeginTraining (nlp_obj s) # new)
                 (named (nlp_obj s)) output_dir,
             nlp_obj := named (nlp_obj s),
             train_data_obj := fst ((shuffle_once L ^^ 50) (train_data_obj s, seed_reply L 0))\<rparr>"
     and r: "steps new = concat (map (\<lambda>k. epoch_steps
         (fst ((shuffle_once L ^^ k) (train_data_obj s, seed_reply L 0)))
         (fst ((shuffle_once L ^^ Suc k) (train_data_obj s, seed_reply L 0)))) [0..<50])"
     "first_losses False new = concat (map (\<lambda>k.
         if fst ((shuffle_once L ^^ Suc k) (train_data_obj s, seed_reply L 0)) = [] then [] else [[]])
         [0..<50])"
     "list_all epoch_call new"
     "truthy output_dir \<longrightarrow> (\<exists>p. output_dir = PyPath p)"
    by blast
  show ?thesis
    by (rule exI[of _ new]) (simp add: new_calls_def n r[unfolded shuffled_def[symmetric]] shuffled_def)
qed

lemma train_ner_started:
  assumes "raises L (calls s) (RandomSeed 0) = None"
    and "raises L (calls s @ [RandomSeed 0]) (BeginTraining (nlp_obj s)) = None"
  shows "train_ner L output_dir s =
     andthen (for_itn L (begin_training_reply L (calls s @ [RandomSeed 0, BeginTraining (nlp_obj s)])) 50)
       (\<lambda>_. if \<not> truthy output_dir then ret ()
         else (case output_dir of
           PyPath p \<Rightarrow>
             andthen (path_exists L p) (\<lambda>there.
             andthen (if \<not> there then path_mkdir L p else ret ()) (\<lambda>_.
             to_disk L output_dir))
         | _ \<Rightarrow> raise AttributeError))
       (s\<lparr>rng := seed_reply L 0,
          calls := calls s @ [RandomSeed 0, BeginTraining (nlp_obj s)],
          nlp_obj := named (nlp_obj s)\<rparr>)"
  using assms
  by (cases s)
     (simp add: train_ner_def random_seed_def begin_training_def set_meta_def named_def
        andthen_def invoke_def Let_def)

lemma setup_Inr:
  assumes "andthen (print L [PyStr ''Creating initial model'', PyStr model_name]) (\<lambda>_.
     andthen (spacy_blank L model_name) (\<lambda>nlp.
     andthen (assign_nlp nlp) (\<lambda>_.
     andthen (assign_train_data train_data) (\<lambda>_.
     andthen (\<lambda>s. new_TokenVectorEncoder L (vocab (nlp_obj s)) s) (\<lambda>p.
     andthen (pipeline_append p) (\<lambda>_.
     andthen (\<lambda>s. new_NeuralEntityRecognizer L (vocab (nlp_obj s)) s) (\<lambda>p.
     andthen (pipeline_append p) (\<lambda>_.
     andthen pipeline_last (\<lambda>p.
     andthen (add_label L p ''ANIMAL'') (\<lambda>_. K)))))))))) s = (Inr u, s')"
  shows "K (s\<lparr>calls := calls s @ setup_calls model_name (blank_nlp L (calls s) model_name),
          nlp_obj := with_pipes (blank_nlp L (calls s) model_name),
          train_data_obj := train_data\<rparr>) = (Inr u, s')"
  using assms unfolding append_then_last
  by (cases s)
     (simp add: andthen_invoke_Inr andthen_call_Inr andthen_assign_nlp
          andthen_assign_train_data andthen_pipeline_append print_def spacy_blank_def
          new_TokenVectorEncoder_def new_NeuralEntityRecognizer_def
          add_label_def setup_calls_def blank_nlp_def with_pipes_def)

lemma main_Inr:
  assumes "main L model_name output_directory s = (Inr u, s')"
  shows "\<exists>s6.
     train_ner L (dir_of output_directory)
       (s\<lparr>calls := calls s @ setup_calls model_name (blank_nlp L (calls s) model_name),
          nlp_obj := with_pipes (blank_nlp L (calls s) model_name),
          train_data_obj := train_data\<rparr>) = (Inr (), s6) \<and>
     s' = s6\<lparr>calls := calls s6 @ test_calls L (calls s6) (nlp_obj s6) @
            (if output_directory = None then []
             else reload_calls L (calls s6 @ test_calls L (calls s6) (nlp_obj s6))
                    (dir_of output_directory))\<rparr>"
proof -
  let ?nlp = "blank_nlp L (calls s) model_name"
  let ?s5 = "s\<lparr>calls := calls s @ setup_calls model_name ?nlp,
          nlp_obj := with_pipes ?nlp, train_data_obj := train_data\<rparr>"
  let ?od = "dir_of output_directory"
  let ?post = "andthen (print L [PyStr ''Ents in 'Do you like horses?':'']) (\<lambda>_.
     andthen (\<lambda>s. nlp_call L (nlp_obj s) ''Do you like horses?'' s) (\<lambda>ents.
     andthen (for_ent L ents) (\<lambda>_.
     if truthy ?od then
       andthen (print L [PyStr ''Loading from'', ?od]) (\<lambda>_.
       andthen (spacy_load L ?od) (\<lambda>nlp2.
       andthen (nlp_call L nlp2 ''Do you like horses?'') (\<lambda>ents2.
       for_ent L ents2)))
     else ret ())))"
  from assms have "andthen (train_ner L ?od) (\<lambda>_. ?post) ?s5 = (Inr u, s')"
    unfolding main_def Let_def dir_of_def[symmetric] by (rule setup_Inr)
  then obtain s6 where t: "train_ner L ?od ?s5 = (Inr (), s6)" and p: "?post s6 = (Inr u, s')"
    by (auto simp: andthen_Inr)
  from p obtain s7 ents where
    a: "s7 = s6\<lparr>calls := calls s6 @ [Print [PyStr ''Ents in 'Do you like horses?':''],
                  NlpCall (nlp_obj s6) ''Do you like horses?'']\<rparr>"
    and ents: "ents = ents_reply L (calls s7)"
    and rest: "andthen (for_ent L ents) (\<lambda>_.
     if truthy ?od then
       andthen (print L [PyStr ''Loading from'', ?od]) (\<lambda>_.
       andthen (spacy_load L ?od) (\<lambda>nlp2.
       andthen (nlp_call L nlp2 ''Do you like horses?'') (\<lambda>ents2.
       for_ent L ents2)))
     else ret ()) s7 = (Inr u, s')"
    by (auto simp: andthen_Inr invoke_Inr print_def nlp_call_def)
  from rest obtain s8 where
    f: "for_ent L ents s8 = (Inr u, s') \<or> True"
    and s8: "s8 = s7\<lparr>calls := calls s7 @ map print_ent ents\<rparr>"
    and fin: "(if truthy ?od then
       andthen (print L [PyStr ''Loading from'', ?od]) (\<lambda>_.
       andthen (spacy_load L ?od) (\<lambda>nlp2.
       andthen (nlp_call L nlp2 ''Do you like horses?'') (\<lambda>ents2.
       for_ent L ents2)))
     else ret ()) s8 = (Inr u, s')"
    by (auto simp: andthen_Inr dest: for_ent_Inr)
  have s8': "s8 = s6\<lparr>calls := calls s6 @ test_calls L (calls s6) (nlp_obj s6)\<rparr>"
    using s8 a ents by (simp add: test_calls_def)
  have "s' = s8\<lparr>calls := calls s8 @ (if output_directory = None then []
             else reload_calls L (calls s8) ?od)\<rparr>"
  proof (cases output_directory)
    case None
    with fin show ?thesis by (simp add: dir_of_def ret_Inr)
  next
    case (Some d)
    with fin obtain s9 where
      "for_ent L (ents_reply L (calls s9)) s9 = (Inr u, s')"
      "s9 = s8\<lparr>calls := calls s8 @ [Print [PyStr ''Loading from'', ?od], SpacyLoad ?od,
        NlpCall (load_reply L (calls s8 @ [Print [PyStr ''Loading from'', ?od], SpacyLoad ?od]))
        ''Do you like horses?'']\<rparr>"
      by (auto simp: dir_of_def andthen_Inr invoke_Inr print_def spacy_load_def nlp_call_def)
    with for_ent_Inr[OF this(1)] Some show ?thesis
      by (simp add: reload_calls_def)
  qed
  with t s8' show ?thesis by auto
qed

lemma main_new:
  assumes "fst (main L model_name output_directory s) = Inr ()"
  shows "\<exists>new sv h.
     new_calls (main L model_name output_directory) s =
       setup_calls model_name (blank_nlp L (calls s) model_name) @
       RandomSeed 0 # BeginTraining (with_pipes (blank_nlp L (calls s) model_name)) # new @ sv @
       test_calls L h (named (with_pipes (blank_nlp L (calls s) model_name))) @
       (if output_directory = None then []
        else reload_calls L
          (h @ test_calls L h (named (with_pipes (blank_nlp L (calls s) model_name))))
          (dir_of output_directory)) \<and>
     sv = save_calls L
         (calls s @ setup_calls model_name (blank_nlp L (calls s) model_name) @
          RandomSeed 0 # BeginTraining (with_pipes (blank_nlp L (calls s) model_name)) # new)
         (named (with_pipes (blank_nlp L (calls s) model_name))) (dir_of output_directory) \<and>
     h = calls s @ setup_calls model_name (blank_nlp L (calls s) model_name) @
          RandomSeed 0 # BeginTraining (with_pipes (blank_nlp L (calls s) model_name)) # new @ sv \<and>
     list_all epoch_call new \<and>
     length (filter is_Report (steps new)) = 50 \<and>
     nlp_obj (snd (main L model_name output_directory s)) =
       named (with_pipes (blank_nlp L (calls s) model_name))"
proof -
  let ?nlp = "blank_nlp L (calls s) model_name"
  let ?s5 = "s\<lparr>calls := calls s @ setup_calls model_name ?nlp,
          nlp_obj := with_pipes ?nlp, train_data_obj := train_data\<rparr>"
  from assms have "main L model_name output_directory s =
      (Inr (), snd (main L model_name output_directory s))"
    by (metis prod.collapse)
  from main_Inr[OF this] obtain s6 where
    t: "train_ner L (dir_of output_directory) ?s5 = (Inr (), s6)"
    and f: "snd (main L model_name output_directory s) =
      s6\<lparr>calls := calls s6 @ test_calls L (calls s6) (nlp_obj s6) @
            (if output_directory = None then []
             else reload_calls L (calls s6 @ test_calls L (calls s6) (nlp_obj s6))
                    (dir_of output_directory))\<rparr>"
    by blast
  from train_ner_Inr[OF t] obtain new where
    n: "s6 = ?s5\<lparr>rng := snd ((shuffle_once L ^^ 50) (train_data_obj ?s5, seed_reply L 0)),
             calls := calls ?s5 @ RandomSeed 0 # BeginTraining (nlp_obj ?s5) # new @
               save_calls L (calls ?s5 @ RandomSeed 0 # BeginTraining (nlp_obj ?s5) # new)
                 (named (nlp_obj ?s5)) (dir_of output_directory),
             nlp_obj := named (nlp_obj ?s5),
             train_data_obj := fst ((shuffle_once L ^^ 50) (train_data_obj ?s5, seed_reply L 0))\<rparr>"
    and e: "list_all epoch_call new"
    and st: "steps new = concat (map (\<lambda>k. epoch_steps
         (fst ((shuffle_once L ^^ k) (train_data_obj ?s5, seed_reply L 0)))
         (fst ((shuffle_once L ^^ Suc k) (train_data_obj ?s5, seed_reply L 0)))) [0..<50])"
    by blast
  have len: "length (filter is_Report (steps new)) = 50"
    unfolding st by (simp add: filter_steps_epochs)
  show ?thesis
    by (intro exI[of _ new] exI[of _ "save_calls L
         (calls s @ setup_calls model_name ?nlp @ RandomSeed 0 # BeginTraining (with_pipes ?nlp) # new)
         (named (with_pipes ?nlp)) (dir_of output_directory)"]
         exI[of _ "calls s @ setup_calls model_name ?nlp @
          RandomSeed 0 # BeginTraining (with_pipes ?nlp) # new @ save_calls L
         (calls s @ setup_calls model_name ?nlp @ RandomSeed 0 # BeginTraining (with_pipes ?nlp) # new)
         (named (with_pipes ?nlp)) (dir_of output_directory)"])
       (simp add: new_calls_def f n e len)
qed

subsection \<open>What every run keeps\<close>

text \<open>
  Properties of the \<^verbatim>\<open>nlp\<close> object and of the training list that hold after a statement
  whenever they held before, also when the statement raises.
\<close>

lemma keeps_ret: "keeps P (ret x)"
  by (simp add: keeps_def ret_def)

lemma keeps_raise: "keeps P (raise e)"
  by (simp add: keeps_def raise_def)

lemma keeps_invoke: "keeps P (\<lambda>s. invoke L (c s) (r s) s)"
  by (simp add: keeps_def invoke_def Let_def split: option.splits)

lemma keeps_call: "keeps P (invoke L c r)"
  using keeps_invoke[of P L "\<lambda>_. c" "\<lambda>_. r"] by simp

lemma keeps_andthen_val:
  fixes m :: "('a, 'g) prog"
  assumes "keeps P m" and "\<And>x s s'. m s = (Inr x, s') \<Longrightarrow> keeps P (f x)"
  shows "keeps P (andthen m f)"
  unfolding keeps_def
proof (intro allI impI)
  fix s :: "'g state"
  assume a: "P (nlp_obj s) (train_data_obj s)"
  with assms(1) have b: "P (nlp_obj (snd (m s))) (train_data_obj (snd (m s)))"
    by (simp add: keeps_def)
  show "P (nlp_obj (snd (andthen m f s))) (train_data_obj (snd (andthen m f s)))"
  proof (cases "m s")
    case (Pair r s1)
    show ?thesis
    proof (cases r)
      case (Inl e)
      with Pair b show ?thesis by (simp add: andthen_def)
    next
      case (Inr x)
      with Pair assms(2)[of s x s1] have "keeps P (f x)" by simp
      with Pair Inr b show ?thesis by (simp add: andthen_def keeps_def)
    qed
  qed
qed

lemma keeps_andthen: "keeps P m \<Longrightarrow> (\<And>x. keeps P (f x)) \<Longrightarrow> keeps P (andthen m f)"
  by (rule keeps_andthen_val)

lemma keeps_print: "keeps P (print L objs)"
  unfolding print_def by (rule keeps_call)

lemma keeps_random_shuffle:
  fixes L :: "'a lib"
  assumes "\<And>n d g. P n d \<Longrightarrow> P n (fst (shuffle_reply L g d))"
  shows "keeps P (random_shuffle L)"
  unfolding keeps_def
proof (intro allI impI)
  fix s :: "'a state"
  assume "P (nlp_obj s) (train_data_obj s)"
  from assms[OF this, of "rng s"]
  show "P (nlp_obj (snd (random_shuffle L s))) (train_data_obj (snd (random_shuffle L s)))"
    using \<open>P (nlp_obj s) (train_data_obj s)\<close>
    by (auto simp: random_shuffle_def andthen_def invoke_def Let_def
          split: option.splits prod.splits)
qed

lemma keeps_item: "keeps P (get_gold_parses_item L (make_doc L) x)"
  unfolding get_gold_parses_item_def make_doc_def new_GoldParse_def
  by (cases x) (auto intro!: keeps_andthen keeps_invoke keeps_call keeps_ret)

lemma keeps_pull: "(\<And>item. item \<in> set items \<Longrightarrow> keeps P item) \<Longrightarrow> keeps P (pull items)"
  by (induction items) (auto intro!: keeps_andthen keeps_ret)

lemma keeps_for_batch:
  "(\<And>b. b \<in> set batches \<Longrightarrow> keeps P b) \<Longrightarrow> keeps P (for_batch L opt l batches)"
proof (induction batches arbitrary: l)
  case Nil
  show ?case by (simp add: keeps_ret)
next
  case (Cons b batches)
  show ?case
    unfolding for_batch.simps zip_star_def nlp_update_def
    by (intro keeps_andthen Cons.prems) (auto intro!: keeps_andthen keeps_invoke keeps_ret keeps_raise Cons)
qed

lemma keeps_for_itn:
  assumes "\<And>n d g. P n d \<Longrightarrow> P n (fst (shuffle_reply L g d))"
  shows "keeps P (for_itn L opt n)"
proof (induction n)
  case 0
  show ?case by (simp add: keeps_ret)
next
  case (Suc n)
  have g: "keeps P (get_gold_parses L (make_doc L))"
    unfolding get_gold_parses_def
    by (intro keeps_andthen keeps_random_shuffle assms) (simp_all add: keeps_def)
  show ?case
    unfolding for_itn.simps
  proof (rule keeps_andthen_val[OF g])
    fix items s s'
    assume "get_gold_parses L (make_doc L) s = (Inr items, s')"
    then have items: "items = map (get_gold_parses_item L (make_doc L)) (train_data_obj s')"
      by (auto simp: get_gold_parses_def andthen_Inr)
    show "keeps P (andthen (for_batch L opt [] (minibatch 3 items)) (\<lambda>losses.
            andthen (print L [PyDict losses]) (\<lambda>_. for_itn L opt n)))"
      unfolding items minibatch_map
      by (intro keeps_andthen keeps_for_batch keeps_print Suc)
         (auto intro!: keeps_pull keeps_item)
  qed
qed

lemma keeps_save:
  "keeps P (if \<not> truthy output_dir then ret ()
     else (case output_dir of
         PyPath p \<Rightarrow>
           andthen (path_exists L p) (\<lambda>there.
           andthen (if \<not> there then path_mkdir L p else ret ()) (\<lambda>_.
           to_disk L output_dir))
       | _ \<Rightarrow> raise AttributeError))"
  unfolding path_exists_def path_mkdir_def to_disk_def
  by (cases output_dir) (auto intro!: keeps_andthen keeps_call keeps_invoke keeps_ret keeps_raise)

lemma keeps_train_ner:
  assumes "\<And>n d g. P n d \<Longrightarrow> P n (fst (shuffle_reply L g d))"
    and "\<And>n d. P n d \<Longrightarrow> P (named n) d"
  shows "keeps P (train_ner L output_dir)"
proof -
  have m: "keeps P (set_meta ''name'' (PyStr ''en_ent_animal''))"
    using assms(2) by (simp add: keeps_def set_meta_def named_def)
  have r: "keeps P (random_seed L 0)"
    unfolding random_seed_def by (intro keeps_andthen keeps_call) (simp add: keeps_def)
  show ?thesis
    unfolding train_ner_def begin_training_def
    by (intro keeps_andthen r m keeps_invoke keeps_for_itn keeps_save assms(1))
qed

subsection \<open>The receiver of the calls\<close>

text \<open>
  The loops and the saving make their method calls on the \<^verbatim>\<open>nlp\<close> object of the state and
  do not change it.
\<close>

lemma serves_ret: "serves (ret x)"
  by (simp add: serves_def ret_def)

lemma serves_raise: "serves (raise e)"
  by (simp add: serves_def raise_def)

lemma serves_invoke:
  "(\<And>s. set (receiver (c s)) \<subseteq> {nlp_obj s}) \<Longrightarrow> serves (\<lambda>s. invoke L (c s) (r s) s)"
  unfolding serves_def
proof
  fix s :: "'a state"
  assume a: "\<And>s. set (receiver (c s)) \<subseteq> {nlp_obj s}"
  show "\<exists>new. calls (snd (invoke L (c s) (r s) s)) = calls s @ new \<and>
          list_all (\<lambda>c. set (receiver c) \<subseteq> {nlp_obj s}) new \<and>
          nlp_obj (snd (invoke L (c s) (r s) s)) = nlp_obj s"
    by (rule exI[of _ "[c s]"]) (use a[of s] in \<open>simp add: invoke_def Let_def split: option.splits\<close>)
qed

lemma serves_call: "receiver c = [] \<Longrightarrow> serves (invoke L c r)"
  using serves_invoke[of "\<lambda>_. c" L "\<lambda>_. r"] by simp

lemma serves_andthen_val:
  fixes m :: "('a, 'g) prog"
  assumes m: "serves m"
    and f: "\<And>x s s'. m s = (Inr x, s') \<Longrightarrow> serves (f x)"
  shows "serves (andthen m f)"
  unfolding serves_def
proof
  fix s :: "'g state"
  from m obtain new1 where
    n1: "calls (snd (m s)) = calls s @ new1"
        "list_all (\<lambda>c. set (receiver c) \<subseteq> {nlp_obj s}) new1"
        "nlp_obj (snd (m s)) = nlp_obj s"
    unfolding serves_def by blast
  show "\<exists>new. calls (snd (andthen m f s)) = calls s @ new \<and>
          list_all (\<lambda>c. set (receiver c) \<subseteq> {nlp_obj s}) new \<and>
          nlp_obj (snd (andthen m f s)) = nlp_obj s"
  proof (cases "m s")
    case (Pair r s1)
    show ?thesis
    proof (cases r)
      case (Inl e)
      with Pair n1 show ?thesis by (auto simp: andthen_def)
    next
      case (Inr x)
      from f[of s x s1] Pair Inr have "serves (f x)" by simp
      then obtain new2 where
        n2: "calls (snd (f x s1)) = calls s1 @ new2"
            "list_all (\<lambda>c. set (receiver c) \<subseteq> {nlp_obj s1}) new2"
            "nlp_obj (snd (f x s1)) = nlp_obj s1"
        unfolding serves_def by blast
      have "calls (snd (andthen m f s)) = calls s @ (new1 @ new2)"
        using Pair Inr n1(1) n2(1) by (simp add: andthen_def)
      moreover have "list_all (\<lambda>c. set (receiver c) \<subseteq> {nlp_obj s}) (new1 @ new2)"
        using Pair n1(2,3) n2(2) by simp
      moreover have "nlp_obj (snd (andthen m f s)) = nlp_obj s"
        using Pair Inr n1(3) n2(3) by (simp add: andthen_def)
      ultimately show ?thesis by blast
    qed
  qed
qed

lemma serves_andthen: "serves m \<Longrightarrow> (\<And>x. serves (f x)) \<Longrightarrow> serves (andthen m f)"
  by (rule serves_andthen_val)

lemma serves_print: "serves (print L objs)"
  unfolding print_def by (rule serves_call) simp

lemma serves_random_shuffle: "serves (random_shuffle L)"
  unfolding serves_def
proof
  fix s :: "'a state"
  show "\<exists>new. calls (snd (random_shuffle L s)) = calls s @ new \<and>
          list_all (\<lambda>c. set (receiver c) \<subseteq> {nlp_obj s}) new \<and>
          nlp_obj (snd (random_shuffle L s)) = nlp_obj s"
    by (rule exI[of _ "[RandomShuffle (train_data_obj s)]"])
       (simp add: random_shuffle_def andthen_def invoke_def Let_def split: option.splits prod.splits)
qed

lemma serves_item: "serves (get_gold_parses_item L (make_doc L) x)"
  unfolding get_gold_parses_item_def make_doc_def new_GoldParse_def
  by (cases x) (auto intro!: serves_andthen serves_invoke serves_call serves_ret)

lemma serves_pull: "(\<And>item. item \<in> set items \<Longrightarrow> serves item) \<Longrightarrow> serves (pull items)"
  by (induction items) (auto intro!: serves_andthen serves_ret)

lemma serves_for_batch:
  "(\<And>b. b \<in> set batches \<Longrightarrow> serves b) \<Longrightarrow> serves (for_batch L opt l batches)"
proof (induction batches arbitrary: l)
  case Nil
  show ?case by (simp add: serves_ret)
next
  case (Cons b batches)
  show ?case
    unfolding for_batch.simps zip_star_def nlp_update_def
    by (intro serves_andthen Cons.prems)
       (auto intro!: serves_andthen serves_invoke serves_ret serves_raise Cons)
qed

lemma serves_for_itn: "serves (for_itn L opt n)"
proof (induction n)
  case 0
  show ?case by (simp add: serves_ret)
next
  case (Suc n)
  have g: "serves (get_gold_parses L (make_doc L))"
    unfolding get_gold_parses_def
    by (intro serves_andthen serves_random_shuffle) (simp add: serves_def)
  show ?case
    unfolding for_itn.simps
  proof (rule serves_andthen_val[OF g])
    fix items s s'
    assume "get_gold_parses L (make_doc L) s = (Inr items, s')"
    then have items: "items = map (get_gold_parses_item L (make_doc L)) (train_data_obj s')"
      by (auto simp: get_gold_parses_def andthen_Inr)
    show "serves (andthen (for_batch L opt [] (minibatch 3 items)) (\<lambda>losses.
            andthen (print L [PyDict losses]) (\<lambda>_. for_itn L opt n)))"
      unfolding items minibatch_map
      by (intro serves_andthen serves_for_batch serves_print Suc)
         (auto intro!: serves_pull serves_item)
  qed
qed

lemma serves_save:
  "serves (if \<not> truthy output_dir then ret ()
     else (case output_dir of
         PyPath p \<Rightarrow>
           andthen (path_exists L p) (\<lambda>there.
           andthen (if \<not> there then path_mkdir L p else ret ()) (\<lambda>_.
           to_disk L output_dir))
       | _ \<Rightarrow> raise AttributeError))"
  unfolding path_exists_def path_mkdir_def to_disk_def
  by (cases output_dir) (auto intro!: serves_andthen serves_call serves_invoke serves_ret serves_raise)

lemma train_ner_Inr_started:
  assumes "fst (train_ner L output_dir s) = Inr ()"
  shows "raises L (calls s) (RandomSeed 0) = None \<and>
         raises L (calls s @ [RandomSeed 0]) (BeginTraining (nlp_obj s)) = None"
proof -
  from assms have "train_ner L output_dir s = (Inr (), snd (train_ner L output_dir s))"
    by (metis prod.collapse)
  then show ?thesis
    by (auto simp: train_ner_def random_seed_def begin_training_def andthen_Inr invoke_Inr)
qed

subsection \<open>Kinds of calls in the parts of a run\<close>

text \<open>
  Which kinds of calls the parts of a run hold, and which directories they name.
\<close>

lemma shuffled_cong:
  assumes "seed_reply L1 = seed_reply L2" and "shuffle_reply L1 = shuffle_reply L2"
  shows "shuffled L1 = shuffled L2"
    and "shuffle_once L1 = shuffle_once L2"
  using assms by (simp_all add: shuffled_def shuffle_once_def fun_eq_iff)

lemma filter_epoch_call:
  "list_all epoch_call cs \<Longrightarrow> filter seed_call cs = []"
  "list_all epoch_call cs \<Longrightarrow> filter path_call cs = []"
  by (induction cs) (auto elim: epoch_call.elims)

lemma filter_save_seed [simp]: "filter seed_call (save_calls L h nlp output_dir) = []"
  by (cases output_dir) (simp_all add: save_calls_def)

lemma epoch_call_others:
  assumes "list_all epoch_call cs"
  shows "filter add_label_call cs = []" "filter infer_call cs = []"
    "concat (map dir_args cs) = []"
  using assms by (induction cs) (auto elim: epoch_call.elims)

lemma dir_args_print_ent [simp]: "dir_args (print_ent e) = []"
  by (cases e) (simp add: print_ent_def)

lemma print_ent_others [simp]:
  "filter add_label_call (map print_ent es) = []"
  "filter infer_call (map print_ent es) = []"
  "filter path_call (map print_ent es) = []"
  "concat (map dir_args (map print_ent es)) = []"
  by (induction es) (auto simp: print_ent_def)

lemma save_calls_others [simp]:
  "filter add_label_call (save_calls L h nlp dir) = []"
  "filter infer_call (save_calls L h nlp dir) = []"
  by (cases dir; simp add: save_calls_def)+

lemma setup_calls_simps [simp]:
  "filter add_label_call (setup_calls m nlp) = [AddLabel (NeuralEntityRecognizer (vocab nlp)) ''ANIMAL'']"
  "filter infer_call (setup_calls m nlp) = []"
  "filter path_call (setup_calls m nlp) = []"
  "filter training_call (setup_calls m nlp) = []"
  "concat (map dir_args (setup_calls m nlp)) = []"
  "length (setup_calls m nlp) = 5"
  "steps (setup_calls m nlp) = []"
  by (simp_all add: setup_calls_def)

lemma test_calls_simps [simp]:
  "filter add_label_call (test_calls L h nlp) = []"
  "filter infer_call (test_calls L h nlp) = [NlpCall nlp ''Do you like horses?'']"
  "filter path_call (test_calls L h nlp) = []"
  "concat (map dir_args (test_calls L h nlp)) = []"
  by (simp_all add: test_calls_def)

lemma reload_calls_simps [simp]:
  "filter add_label_call (reload_calls L h dir) = []"
  "concat (map dir_args (reload_calls L h dir)) = [dir]"
  by (simp_all add: reload_calls_def)

lemma reload_calls_infer [simp]:
  "filter infer_call (reload_calls L h dir) =
     [SpacyLoad dir,
      NlpCall (load_reply L (h @ [Print [PyStr ''Loading from'', dir], SpacyLoad dir]))
        ''Do you like horses?'']"
  by (simp add: reload_calls_def)

lemma main_dir_args:
  assumes "fst (main L model_name output_directory s) = Inr ()"
  shows "(output_directory = None \<longrightarrow>
            concat (map dir_args (new_calls (main L model_name output_directory) s)) = []) \<and>
         (\<forall>d. output_directory = Some d \<longrightarrow>
            set (concat (map dir_args (new_calls (main L model_name output_directory) s))) =
              {PyPath (Path d)})"
proof -
  let ?nlp = "blank_nlp L (calls s) model_name"
  from main_new[OF assms] obtain new sv h where
    r: "new_calls (main L model_name output_directory) s =
       setup_calls model_name ?nlp @
       RandomSeed 0 # BeginTraining (with_pipes ?nlp) # new @ sv @
       test_calls L h (named (with_pipes ?nlp)) @
       (if output_directory = None then []
        else reload_calls L (h @ test_calls L h (named (with_pipes ?nlp))) (dir_of output_directory))"
    and sv: "sv = save_calls L
         (calls s @ setup_calls model_name ?nlp @ RandomSeed 0 # BeginTraining (with_pipes ?nlp) # new)
         (named (with_pipes ?nlp)) (dir_of output_directory)"
    and e: "list_all epoch_call new"
    by blast
  show ?thesis
    unfolding r sv
    by (auto simp: epoch_call_others(3)[OF e] dir_of_def save_calls_def)
qed

subsection \<open>The demonstration libraries\<close>

text \<open>
  What the libraries of the examples answer, and how the script runs with them.
\<close>

lemma demo_quiet: "raises demo_lib h c = None"
  by (simp add: demo_lib_def)

lemma other_quiet: "raises other_lib h c = None"
  by (simp add: other_lib_def demo_lib_def)

lemma cli_quiet: "raises cli_lib h c = None"
  by (simp add: cli_lib_def demo_lib_def)

lemma demo_shuffled: "shuffled demo_lib xs k = rotate k xs"
proof -
  have "(shuffle_once demo_lib ^^ k) (xs, g) = (rotate k xs, g + k)" for g
    by (induction k) (simp_all add: shuffle_once_def demo_lib_def)
  then show ?thesis by (simp add: shuffled_def)
qed

lemma demo_blank [simp]: "blank_nlp demo_lib h model_name = demo_nlp"
  by (simp add: blank_nlp_def demo_lib_def)

lemma demo_main_returns: "fst (main demo_lib model_name output_directory s) = Inr ()"
  using traced_returns[OF traced_main demo_quiet, of model_name output_directory s] by simp

lemma fail_lib_raises [simp]:
  "raises fail_lib h (Update nlp docs golds l sgd us dr) = Some (LibraryError ''out of memory'')"
  "raises fail_lib h (RandomSeed a) = None"
  "raises fail_lib h (BeginTraining nlp) = None"
  "raises fail_lib h (RandomShuffle xs) = None"
  "raises fail_lib h (MakeDoc nlp t) = None"
  "raises fail_lib h (NewGoldParse d e) = None"
  by (simp_all add: fail_lib_def)

lemma train_ner_fails:
  "fst (train_ner fail_lib PyNone demo_state) = Inl (LibraryError ''out of memory'')"
proof -
  have "raises fail_lib (calls demo_state) (RandomSeed 0) = None"
    "raises fail_lib (calls demo_state @ [RandomSeed 0]) (BeginTraining (nlp_obj demo_state)) = None"
    by simp_all
  note s = train_ner_started[OF this]
  have f: "for_itn L opt 50 = for_itn L opt (Suc 49)" for L :: "nat lib" and opt
    by simp
  have sh: "shuffle_reply fail_lib g xs = (rotate1 xs, Suc g)" for g xs
    by (simp add: fail_lib_def demo_lib_def)
  show ?thesis
    unfolding s f for_itn.simps
    by (simp add: demo_state_def train_data_def get_gold_parses_def random_shuffle_def
          get_gold_parses_item_def make_doc_def new_GoldParse_def minibatch.simps
          zip_star_def nlp_update_def andthen_def invoke_def ret_def Let_def sh)
qed

lemma main_no_model:
  "main no_model_lib ''xx'' None demo_state =
     (Inl (LibraryError ''no such language''),
      demo_state\<lparr>calls := [Print [PyStr ''Creating initial model'', PyStr ''xx''], SpacyBlank ''xx'']\<rparr>)"
  by (simp add: main_def print_def spacy_blank_def andthen_def invoke_def Let_def
        no_model_lib_def demo_lib_def demo_state_def)

lemma cli_entry:
  "entry_point cli_lib cli_argv demo_state =
     main cli_lib ''en'' (Some ''out'') (demo_state\<lparr>calls := calls demo_state @ [PlacCall cli_argv]\<rparr>)"
  by (simp add: entry_point_def andthen_def invoke_def Let_def call_main_def cli_lib_def demo_lib_def)

lemma demo_entry:
  "entry_point demo_lib [''train_new_entity_type.py'', ''en''] demo_state =
     main demo_lib ''en'' None
       (demo_state\<lparr>calls := calls demo_state @ [PlacCall [''train_new_entity_type.py'', ''en'']]\<rparr>)"
  by (simp add: entry_point_def andthen_def invoke_def Let_def call_main_def demo_lib_def)

section \<open>The training loop\<close>

text \<open>
  Claim C1. In a run of \<^verbatim>\<open>train_ner\<close> that returns, the steps of the schedule are those
  of fifty epochs, one after the other: epoch \<open>k\<close> shuffles the example list as epoch
  \<open>k - 1\<close> left it, presents the shuffled list to \<^verbatim>\<open>nlp.update\<close> in consecutive batches of
  three (a batch is never empty and never longer than three; when three divides the number
  of examples, as with the six examples of \<^verbatim>\<open>main\<close>, every batch holds exactly three) and
  prints the losses. The first update after each shuffle gets the empty loss dictionary.
\<close>

theorem train_ner_fifty_epochs:
  assumes "fst (train_ner L output_dir s) = Inr ()"
  shows "steps (new_calls (train_ner L output_dir) s) =
           concat (map (\<lambda>k. epoch_steps (shuffled L (train_data_obj s) k)
                                         (shuffled L (train_data_obj s) (Suc k))) [0..<50]) \<and>
         length (filter is_Shuffle (steps (new_calls (train_ner L output_dir) s))) = 50 \<and>
         length (filter is_Report (steps (new_calls (train_ner L output_dir) s))) = 50 \<and>
         list_all batch_ok (steps (new_calls (train_ner L output_dir) s)) \<and>
         (\<forall>k. 3 dvd length (shuffled L (train_data_obj s) (Suc k)) \<longrightarrow>
              list_all (\<lambda>b. length b = 3) (chunks 3 (shuffled L (train_data_obj s) (Suc k)))) \<and>
         first_losses False (new_calls (train_ner L output_dir) s) =
           concat (map (\<lambda>k. if shuffled L (train_data_obj s) (Suc k) = [] then [] else [[]])
                    [0..<50])"
proof -
  from train_ner_new[OF assms] obtain new where
    n: "new_calls (train_ner L output_dir) s =
           RandomSeed 0 # BeginTraining (nlp_obj s) # new @
             save_calls L (calls s @ RandomSeed 0 # BeginTraining (nlp_obj s) # new)
               (named (nlp_obj s)) output_dir"
    and st: "steps new = concat (map (\<lambda>k. epoch_steps (shuffled L (train_data_obj s) k)
                                       (shuffled L (train_data_obj s) (Suc k))) [0..<50])"
    and fl: "first_losses False new = concat (map (\<lambda>k.
            if shuffled L (train_data_obj s) (Suc k) = [] then [] else [[]]) [0..<50])"
    by blast
  have a: "steps (new_calls (train_ner L output_dir) s) = steps new"
    by (simp add: n)
  have b: "first_losses False (new_calls (train_ner L output_dir) s) = first_losses False new"
    by (simp add: n first_losses_append)
  have c: "\<forall>k. 3 dvd length (shuffled L (train_data_obj s) (Suc k)) \<longrightarrow>
              list_all (\<lambda>b. length b = 3) (chunks 3 (shuffled L (train_data_obj s) (Suc k)))"
    by (auto simp: list_all_iff dest: chunks_dvd)
  show ?thesis
    unfolding a b st fl using c by (simp add: filter_steps_epochs)
qed

text \<open>
  With the six examples of \<^verbatim>\<open>main\<close> and the demonstration library the run returns, and
  its first epoch is a shuffle, two batches of three and the report.
\<close>

theorem train_ner_fifty_epochs_witness:
  "fst (train_ner demo_lib PyNone demo_state) = Inr () \<and>
   length (filter is_Report (steps (new_calls (train_ner demo_lib PyNone) demo_state))) = 50 \<and>
   take 4 (steps (new_calls (train_ner demo_lib PyNone) demo_state)) =
     [Shuffle train_data,
      Present (map gold_of (take 3 (rotate1 train_data))),
      Present (map gold_of (drop 3 (rotate1 train_data))),
      Report]"
proof -
  have r: "fst (train_ner demo_lib PyNone demo_state) = Inr ()"
    using traced_returns[OF traced_train_ner_falsy[of PyNone demo_lib] demo_quiet, of demo_state]
    by simp
  have e: "epoch_steps (shuffled demo_lib train_data 0) (shuffled demo_lib train_data (Suc 0)) =
     [Shuffle train_data,
      Present (map gold_of (take 3 (rotate1 train_data))),
      Present (map gold_of (drop 3 (rotate1 train_data))),
      Report]"
    by (simp add: epoch_steps_def shuffled_def shuffle_once_def demo_lib_def train_data_def
          chunks.simps)
  have u: "[0..<50] = 0 # [Suc 0..<50]"
    by (simp add: upt_conv_Cons)
  have d: "train_data_obj demo_state = train_data"
    by (simp add: demo_state_def)
  note t = train_ner_fifty_epochs[OF r]
  from t have s1: "take 4 (steps (new_calls (train_ner demo_lib PyNone) demo_state)) =
     [Shuffle train_data,
      Present (map gold_of (take 3 (rotate1 train_data))),
      Present (map gold_of (drop 3 (rotate1 train_data))),
      Report]"
    by (simp add: d u e)
  from t have s2:
    "length (filter is_Report (steps (new_calls (train_ner demo_lib PyNone) demo_state))) = 50"
    by blast
  from r s1 s2 show ?thesis by blast
qed

section \<open>The training examples\<close>

text \<open>
  Claim C2. The claim and the docstring of the module ("only four sentences are provided
  as examples") count four training sentences. The list literal of \<^verbatim>\<open>main\<close> holds six
  pairs of a text and its spans; five of them carry one span each, labelled
  \<^verbatim>\<open>ANIMAL\<close>, and one carries none.
\<close>

theorem train_data_has_six_examples:
  "length train_data = 6 \<and>
   map (\<lambda>(raw_text, entity_offsets). map (\<lambda>(a, b, label). label) entity_offsets) train_data =
     [[''ANIMAL''], [], [''ANIMAL''], [''ANIMAL''], [''ANIMAL''], [''ANIMAL'']]"
  by (simp add: train_data_def)

section \<open>Building the pipeline\<close>

text \<open>
  Claim C3. A run of \<^verbatim>\<open>main\<close> that returns starts with five calls, none of them a
  training call: the greeting, \<^verbatim>\<open>spacy.blank\<close> for the given language, the construction
  of a token-vector encoder and of an entity recognizer, and \<^verbatim>\<open>add_label('ANIMAL')\<close> on
  the recognizer. The training starts right after them, on the blank pipeline with the
  encoder and then the recognizer appended, so that the recognizer is its last element.
  No other label is registered in the whole run, and the pipeline is not changed again.
\<close>

theorem main_builds_pipeline_before_training:
  assumes "fst (main L model_name output_directory s) = Inr ()"
  shows "take 7 (new_calls (main L model_name output_directory) s) =
           setup_calls model_name (blank_nlp L (calls s) model_name) @
           [RandomSeed 0, BeginTraining (with_pipes (blank_nlp L (calls s) model_name))] \<and>
         filter training_call (take 5 (new_calls (main L model_name output_directory) s)) = [] \<and>
         pipeline (with_pipes (blank_nlp L (calls s) model_name)) =
           pipeline (blank_nlp L (calls s) model_name) @
           [TokenVectorEncoder (vocab (blank_nlp L (calls s) model_name)),
            NeuralEntityRecognizer (vocab (blank_nlp L (calls s) model_name))] \<and>
         last (pipeline (with_pipes (blank_nlp L (calls s) model_name))) =
           NeuralEntityRecognizer (vocab (blank_nlp L (calls s) model_name)) \<and>
         filter add_label_call (new_calls (main L model_name output_directory) s) =
           [AddLabel (NeuralEntityRecognizer (vocab (blank_nlp L (calls s) model_name))) ''ANIMAL''] \<and>
         pipeline (nlp_obj (snd (main L model_name output_directory s))) =
           pipeline (with_pipes (blank_nlp L (calls s) model_name))"
proof -
  from main_new[OF assms] obtain new sv h where
    r: "new_calls (main L model_name output_directory) s =
       setup_calls model_name (blank_nlp L (calls s) model_name) @
       RandomSeed 0 # BeginTraining (with_pipes (blank_nlp L (calls s) model_name)) # new @ sv @
       test_calls L h (named (with_pipes (blank_nlp L (calls s) model_name))) @
       (if output_directory = None then []
        else reload_calls L
          (h @ test_calls L h (named (with_pipes (blank_nlp L (calls s) model_name))))
          (dir_of output_directory))"
    and sv: "sv = save_calls L
         (calls s @ setup_calls model_name (blank_nlp L (calls s) model_name) @
          RandomSeed 0 # BeginTraining (with_pipes (blank_nlp L (calls s) model_name)) # new)
         (named (with_pipes (blank_nlp L (calls s) model_name))) (dir_of output_directory)"
    and e: "list_all epoch_call new"
    and o: "nlp_obj (snd (main L model_name output_directory s)) =
       named (with_pipes (blank_nlp L (calls s) model_name))"
    by blast
  show ?thesis
    by (simp add: r sv o epoch_call_others(1)[OF e]) (simp add: with_pipes_def named_def)
qed

text \<open>With the demonstration library, whose blank pipeline is empty.\<close>

theorem main_builds_pipeline_before_training_witness:
  "fst (main demo_lib ''en'' None demo_state) = Inr () \<and>
   take 7 (new_calls (main demo_lib ''en'' None) demo_state) =
     [Print [PyStr ''Creating initial model'', PyStr ''en''],
      SpacyBlank ''en'',
      NewTokenVectorEncoder (Vocab ''en''),
      NewNeuralEntityRecognizer (Vocab ''en''),
      AddLabel (NeuralEntityRecognizer (Vocab ''en'')) ''ANIMAL'',
      RandomSeed 0,
      BeginTraining \<lparr>vocab = Vocab ''en'',
        pipeline = [TokenVectorEncoder (Vocab ''en''), NeuralEntityRecognizer (Vocab ''en'')],
        meta = []\<rparr>] \<and>
   filter add_label_call (new_calls (main demo_lib ''en'' None) demo_state) =
     [AddLabel (NeuralEntityRecognizer (Vocab ''en'')) ''ANIMAL''] \<and>
   pipeline (nlp_obj (snd (main demo_lib ''en'' None demo_state))) =
     [TokenVectorEncoder (Vocab ''en''), NeuralEntityRecognizer (Vocab ''en'')]"
proof -
  note t = main_builds_pipeline_before_training[OF demo_main_returns, of "''en''" None demo_state]
  from t have a: "take 7 (new_calls (main demo_lib ''en'' None) demo_state) =
     [Print [PyStr ''Creating initial model'', PyStr ''en''],
      SpacyBlank ''en'',
      NewTokenVectorEncoder (Vocab ''en''),
      NewNeuralEntityRecognizer (Vocab ''en''),
      AddLabel (NeuralEntityRecognizer (Vocab ''en'')) ''ANIMAL'',
      RandomSeed 0,
      BeginTraining \<lparr>vocab = Vocab ''en'',
        pipeline = [TokenVectorEncoder (Vocab ''en''), NeuralEntityRecognizer (Vocab ''en'')],
        meta = []\<rparr>]"
    by (simp add: setup_calls_def with_pipes_def demo_nlp_def)
  from t have b: "filter add_label_call (new_calls (main demo_lib ''en'' None) demo_state) =
     [AddLabel (NeuralEntityRecognizer (Vocab ''en'')) ''ANIMAL'']"
    by (simp add: demo_nlp_def)
  from t have c: "pipeline (nlp_obj (snd (main demo_lib ''en'' None demo_state))) =
     [TokenVectorEncoder (Vocab ''en''), NeuralEntityRecognizer (Vocab ''en'')]"
    by (simp add: with_pipes_def demo_nlp_def)
  from a b c demo_main_returns[of "''en''" None demo_state] show ?thesis by blast
qed

section \<open>Saving the pipeline\<close>

text \<open>
  Claim C4. With an \<^verbatim>\<open>output_dir\<close> that is false (\<^verbatim>\<open>None\<close>, or for instance the empty
  string) no run of \<^verbatim>\<open>train_ner\<close> makes a call that names a directory, however it ends.
  A run that returns with a true \<^verbatim>\<open>output_dir\<close> was given a \<^verbatim>\<open>Path\<close>; after the fifty
  epochs it asks whether the directory exists and then either writes the pipeline there at
  once or creates the directory first.
\<close>

theorem train_ner_saves_only_when_asked:
  "(\<not> truthy output_dir \<longrightarrow> filter path_call (new_calls (train_ner L output_dir) s) = []) \<and>
   (fst (train_ner L output_dir s) = Inr () \<longrightarrow>
      (truthy output_dir \<longrightarrow> (\<exists>p. output_dir = PyPath p)) \<and>
      (\<forall>p. output_dir = PyPath p \<longrightarrow>
         (\<exists>pre. new_calls (train_ner L output_dir) s =
                  pre @ PathExists p #
                    (if exists_reply L (calls s @ pre @ [PathExists p])
                     then [ToDisk (named (nlp_obj s)) output_dir]
                     else [PathMkdir p, ToDisk (named (nlp_obj s)) output_dir]) \<and>
                filter path_call pre = [] \<and>
                length (filter is_Report (steps pre)) = 50)))"
proof (intro conjI impI allI)
  assume f: "\<not> truthy output_dir"
  have "traced L (\<lambda>c. \<not> path_call c) (train_ner L output_dir)"
    by (rule traced_mono[OF traced_train_ner_falsy[OF f]]) (rule training_not_path)
  then obtain new where "calls (snd (train_ner L output_dir s)) = calls s @ new"
    "list_all (\<lambda>c. \<not> path_call c) new"
    unfolding traced_def by blast
  then show "filter path_call (new_calls (train_ner L output_dir) s) = []"
    by (simp add: new_calls_def list_all_filter_empty)
next
  assume r: "fst (train_ner L output_dir s) = Inr ()" and "truthy output_dir"
  with train_ner_new[OF r] show "\<exists>p. output_dir = PyPath p" by blast
next
  fix p
  assume r: "fst (train_ner L output_dir s) = Inr ()" and p: "output_dir = PyPath p"
  from train_ner_new[OF r] obtain new where
    a: "new_calls (train_ner L output_dir) s =
           RandomSeed 0 # BeginTraining (nlp_obj s) # new @
             save_calls L (calls s @ RandomSeed 0 # BeginTraining (nlp_obj s) # new)
               (named (nlp_obj s)) output_dir"
       "steps new = concat (map (\<lambda>k. epoch_steps (shuffled L (train_data_obj s) k)
                                       (shuffled L (train_data_obj s) (Suc k))) [0..<50])"
       "list_all epoch_call new"
    by blast
  let ?pre = "RandomSeed 0 # BeginTraining (nlp_obj s) # new"
  have "new_calls (train_ner L output_dir) s =
          ?pre @ PathExists p #
            (if exists_reply L (calls s @ ?pre @ [PathExists p])
             then [ToDisk (named (nlp_obj s)) output_dir]
             else [PathMkdir p, ToDisk (named (nlp_obj s)) output_dir])"
    using a(1) by (simp add: save_calls_def p)
  moreover have "filter path_call ?pre = []"
    by (simp add: filter_epoch_call(2)[OF a(3)])
  moreover have "length (filter is_Report (steps ?pre)) = 50"
    by (simp add: a(2) filter_steps_epochs)
  ultimately show "\<exists>pre. new_calls (train_ner L output_dir) s =
                  pre @ PathExists p #
                    (if exists_reply L (calls s @ pre @ [PathExists p])
                     then [ToDisk (named (nlp_obj s)) output_dir]
                     else [PathMkdir p, ToDisk (named (nlp_obj s)) output_dir]) \<and>
                filter path_call pre = [] \<and>
                length (filter is_Report (steps pre)) = 50"
    by blast
qed

text \<open>
  The three cases: an empty string, a directory that is missing, a directory that exists.
\<close>

theorem train_ner_saves_only_when_asked_witness:
  "\<not> truthy (PyStr '''') \<and>
   filter path_call (new_calls (train_ner demo_lib (PyStr '''')) demo_state) = [] \<and>
   fst (train_ner demo_lib (PyPath (Path ''out'')) demo_state) = Inr () \<and>
   filter path_call (new_calls (train_ner demo_lib (PyPath (Path ''out''))) demo_state) =
     [PathExists (Path ''out''), PathMkdir (Path ''out''),
      ToDisk (named demo_nlp) (PyPath (Path ''out''))] \<and>
   fst (train_ner other_lib (PyPath (Path ''out'')) demo_state) = Inr () \<and>
   filter path_call (new_calls (train_ner other_lib (PyPath (Path ''out''))) demo_state) =
     [PathExists (Path ''out''), ToDisk (named demo_nlp) (PyPath (Path ''out''))]"
proof -
  have r1: "fst (train_ner demo_lib (PyPath (Path ''out'')) demo_state) = Inr ()"
    using traced_returns[OF traced_train_ner_path[of demo_lib "Path ''out''"] demo_quiet,
        of demo_state]
    by simp
  have r2: "fst (train_ner other_lib (PyPath (Path ''out'')) demo_state) = Inr ()"
    using traced_returns[OF traced_train_ner_path[of other_lib "Path ''out''"] other_quiet,
        of demo_state]
    by simp
  have n: "nlp_obj demo_state = demo_nlp" by (simp add: demo_state_def)
  have e1: "exists_reply demo_lib h = False" for h by (simp add: demo_lib_def)
  have e2: "exists_reply other_lib h = True" for h by (simp add: other_lib_def)
  from train_ner_saves_only_when_asked[of "PyStr ''''" demo_lib demo_state]
  have a: "filter path_call (new_calls (train_ner demo_lib (PyStr '''')) demo_state) = []"
    by simp
  from train_ner_saves_only_when_asked[of "PyPath (Path ''out'')" demo_lib demo_state] r1
  have b: "filter path_call (new_calls (train_ner demo_lib (PyPath (Path ''out''))) demo_state) =
     [PathExists (Path ''out''), PathMkdir (Path ''out''),
      ToDisk (named demo_nlp) (PyPath (Path ''out''))]"
    by (auto simp: n e1)
  from train_ner_saves_only_when_asked[of "PyPath (Path ''out'')" other_lib demo_state] r2
  have c: "filter path_call (new_calls (train_ner other_lib (PyPath (Path ''out''))) demo_state) =
     [PathExists (Path ''out''), ToDisk (named demo_nlp) (PyPath (Path ''out''))]"
    by (auto simp: n e2)
  from a b c r1 r2 show ?thesis by simp
qed

section \<open>Testing the trained and the reloaded pipeline\<close>

text \<open>
  Claim C5. In a run of \<^verbatim>\<open>main\<close> that returns without an output directory, the trained
  pipeline is applied once to the test sentence; nothing is loaded and no other pipeline
  is applied. With an output directory \<open>d\<close> the run ends as follows: the pipeline is
  written to \<open>Path d\<close> (after the fifty epochs), the trained pipeline is tested, and then
  the pipeline is loaded from \<open>Path d\<close> and applied once to \<^verbatim>\<open>'Do you like horses?'\<close>,
  and the label and the text of each entity it found are printed. Before the write,
  nothing is loaded and no pipeline is applied.
\<close>

theorem main_reloads_iff_directory:
  assumes "fst (main L model_name output_directory s) = Inr ()"
  shows "(output_directory = None \<longrightarrow>
            filter infer_call (new_calls (main L model_name output_directory) s) =
              [NlpCall (named (with_pipes (blank_nlp L (calls s) model_name)))
                 ''Do you like horses?'']) \<and>
         (\<forall>d. output_directory = Some d \<longrightarrow>
            (\<exists>pre. new_calls (main L model_name output_directory) s =
                pre @
                ToDisk (named (with_pipes (blank_nlp L (calls s) model_name))) (PyPath (Path d)) #
                test_calls L
                  (calls s @ pre @
                   [ToDisk (named (with_pipes (blank_nlp L (calls s) model_name))) (PyPath (Path d))])
                  (named (with_pipes (blank_nlp L (calls s) model_name))) @
                reload_calls L
                  (calls s @ pre @
                   ToDisk (named (with_pipes (blank_nlp L (calls s) model_name))) (PyPath (Path d)) #
                   test_calls L
                     (calls s @ pre @
                      [ToDisk (named (with_pipes (blank_nlp L (calls s) model_name))) (PyPath (Path d))])
                     (named (with_pipes (blank_nlp L (calls s) model_name))))
                  (PyPath (Path d)) \<and>
              filter infer_call pre = [] \<and>
              length (filter is_Report (steps pre)) = 50))"
proof -
  let ?nlp = "blank_nlp L (calls s) model_name"
  from main_new[OF assms] obtain new sv h where
    r: "new_calls (main L model_name output_directory) s =
       setup_calls model_name ?nlp @
       RandomSeed 0 # BeginTraining (with_pipes ?nlp) # new @ sv @
       test_calls L h (named (with_pipes ?nlp)) @
       (if output_directory = None then []
        else reload_calls L (h @ test_calls L h (named (with_pipes ?nlp))) (dir_of output_directory))"
    and sv: "sv = save_calls L
         (calls s @ setup_calls model_name ?nlp @ RandomSeed 0 # BeginTraining (with_pipes ?nlp) # new)
         (named (with_pipes ?nlp)) (dir_of output_directory)"
    and h: "h = calls s @ setup_calls model_name ?nlp @
          RandomSeed 0 # BeginTraining (with_pipes ?nlp) # new @ sv"
    and e: "list_all epoch_call new"
    and len: "length (filter is_Report (steps new)) = 50"
    by blast
  show ?thesis
  proof (intro conjI impI allI)
    assume d: "output_directory = None"
    show "filter infer_call (new_calls (main L model_name output_directory) s) =
              [NlpCall (named (with_pipes ?nlp)) ''Do you like horses?'']"
      unfolding r by (simp add: sv d epoch_call_others(2)[OF e])
  next
    fix d
    assume d: "output_directory = Some d"
    let ?pre = "setup_calls model_name ?nlp @
       RandomSeed 0 # BeginTraining (with_pipes ?nlp) # new @
       PathExists (Path d) #
       (if exists_reply L (calls s @ setup_calls model_name ?nlp @
            RandomSeed 0 # BeginTraining (with_pipes ?nlp) # new @ [PathExists (Path d)])
        then [] else [PathMkdir (Path d)])"
    show "\<exists>pre. new_calls (main L model_name output_directory) s =
                pre @
                ToDisk (named (with_pipes ?nlp)) (PyPath (Path d)) #
                test_calls L
                  (calls s @ pre @ [ToDisk (named (with_pipes ?nlp)) (PyPath (Path d))])
                  (named (with_pipes ?nlp)) @
                reload_calls L
                  (calls s @ pre @
                   ToDisk (named (with_pipes ?nlp)) (PyPath (Path d)) #
                   test_calls L
                     (calls s @ pre @ [ToDisk (named (with_pipes ?nlp)) (PyPath (Path d))])
                     (named (with_pipes ?nlp)))
                  (PyPath (Path d)) \<and>
              filter infer_call pre = [] \<and>
              length (filter is_Report (steps pre)) = 50"
      unfolding r
      by (rule exI[of _ ?pre])
         (simp add: sv h d save_calls_def dir_of_def epoch_call_others(2)[OF e] len)
  qed
qed

text \<open>Both cases with the demonstration library, which finds the entity "horses".\<close>

theorem main_reloads_iff_directory_witness:
  "fst (main demo_lib ''en'' None demo_state) = Inr () \<and>
   filter infer_call (new_calls (main demo_lib ''en'' None) demo_state) =
     [NlpCall (named (with_pipes demo_nlp)) ''Do you like horses?''] \<and>
   fst (main demo_lib ''en'' (Some ''out'') demo_state) = Inr () \<and>
   filter infer_call (new_calls (main demo_lib ''en'' (Some ''out'')) demo_state) =
     [NlpCall (named (with_pipes demo_nlp)) ''Do you like horses?'',
      SpacyLoad (PyPath (Path ''out'')),
      NlpCall demo_nlp ''Do you like horses?''] \<and>
   last (new_calls (main demo_lib ''en'' (Some ''out'')) demo_state) =
     Print [PyStr ''ANIMAL'', PyStr ''horses'']"
proof -
  note r1 = demo_main_returns[of "''en''" None demo_state]
  note r2 = demo_main_returns[of "''en''" "Some ''out''" demo_state]
  from main_reloads_iff_directory[OF r1]
  have a: "filter infer_call (new_calls (main demo_lib ''en'' None) demo_state) =
     [NlpCall (named (with_pipes demo_nlp)) ''Do you like horses?'']"
    by simp
  from main_reloads_iff_directory[OF r2] obtain pre where
    p: "new_calls (main demo_lib ''en'' (Some ''out'')) demo_state =
                pre @
                ToDisk (named (with_pipes demo_nlp)) (PyPath (Path ''out'')) #
                test_calls demo_lib
                  (calls demo_state @ pre @
                   [ToDisk (named (with_pipes demo_nlp)) (PyPath (Path ''out''))])
                  (named (with_pipes demo_nlp)) @
                reload_calls demo_lib
                  (calls demo_state @ pre @
                   ToDisk (named (with_pipes demo_nlp)) (PyPath (Path ''out'')) #
                   test_calls demo_lib
                     (calls demo_state @ pre @
                      [ToDisk (named (with_pipes demo_nlp)) (PyPath (Path ''out''))])
                     (named (with_pipes demo_nlp)))
                  (PyPath (Path ''out''))"
    and q: "filter infer_call pre = []"
    by auto
  have l: "load_reply demo_lib h = demo_nlp" for h
    by (simp add: demo_lib_def)
  have b: "filter infer_call (new_calls (main demo_lib ''en'' (Some ''out'')) demo_state) =
     [NlpCall (named (with_pipes demo_nlp)) ''Do you like horses?'',
      SpacyLoad (PyPath (Path ''out'')),
      NlpCall demo_nlp ''Do you like horses?'']"
    unfolding p by (simp add: q l)
  have c: "last (new_calls (main demo_lib ''en'' (Some ''out'')) demo_state) =
     Print [PyStr ''ANIMAL'', PyStr ''horses'']"
    unfolding p by (simp add: reload_calls_def demo_lib_def print_ent_def)
  from r1 r2 a b c show ?thesis by blast
qed

section \<open>The command line\<close>

text \<open>
  Claim C6. A run of the entry point that returns first hands the command line to plac
  and then calls \<^verbatim>\<open>main\<close> with what plac returns: a model name, and possibly an output
  directory. Without the directory (the default \<^verbatim>\<open>None\<close>) no call of the run names a
  directory: nothing is saved or loaded. With a directory \<open>d\<close>, every directory that a
  call names is the path object \<open>Path d\<close>, never the string.
\<close>

theorem entry_point_arguments:
  assumes "fst (entry_point L argv s) = Inr ()"
  shows "\<exists>model_name output_directory.
     plac_reply L (calls s @ [PlacCall argv]) =
       model_name # (case output_directory of None \<Rightarrow> [] | Some d \<Rightarrow> [d]) \<and>
     entry_point L argv s =
       main L model_name output_directory (s\<lparr>calls := calls s @ [PlacCall argv]\<rparr>) \<and>
     new_calls (entry_point L argv) s =
       PlacCall argv #
       new_calls (main L model_name output_directory) (s\<lparr>calls := calls s @ [PlacCall argv]\<rparr>) \<and>
     (output_directory = None \<longrightarrow>
        concat (map dir_args (new_calls (entry_point L argv) s)) = []) \<and>
     (\<forall>d. output_directory = Some d \<longrightarrow>
        set (concat (map dir_args (new_calls (entry_point L argv) s))) = {PyPath (Path d)})"
proof -
  let ?s1 = "s\<lparr>calls := calls s @ [PlacCall argv]\<rparr>"
  let ?args = "plac_reply L (calls s @ [PlacCall argv])"
  from assms have "entry_point L argv s = (Inr (), snd (entry_point L argv s))"
    by (metis prod.collapse)
  then have nr: "raises L (calls s) (PlacCall argv) = None"
    and c: "call_main L ?args ?s1 = (Inr (), snd (entry_point L argv s))"
    by (auto simp: entry_point_def andthen_Inr invoke_Inr)
  then have ep: "entry_point L argv s = call_main L ?args ?s1"
    by (simp add: entry_point_def andthen_def invoke_def Let_def)
  have "\<exists>m od. ?args = m # (case od of None \<Rightarrow> [] | Some d \<Rightarrow> [d]) \<and>
                call_main L ?args = main L m od"
  proof (cases ?args)
    case Nil
    with c show ?thesis by (simp add: call_main_def raise_def)
  next
    case (Cons m rest)
    show ?thesis
    proof (cases rest)
      case Nil
      with Cons show ?thesis
        by (intro exI[of _ m] exI[of _ None]) (simp add: call_main_def)
    next
      case (Cons d rest')
      show ?thesis
      proof (cases rest')
        case Nil
        with \<open>?args = m # rest\<close> \<open>rest = d # rest'\<close> show ?thesis
          by (intro exI[of _ m] exI[of _ "Some d"]) (simp add: call_main_def)
      next
        case (Cons x rest'')
        with \<open>?args = m # rest\<close> \<open>rest = d # rest'\<close> c show ?thesis
          by (simp add: call_main_def raise_def)
      qed
    qed
  qed
  then obtain m od where
    a: "?args = m # (case od of None \<Rightarrow> [] | Some d \<Rightarrow> [d])"
    and cm: "call_main L ?args = main L m od"
    by blast
  have e: "entry_point L argv s = main L m od ?s1"
    by (simp add: ep cm)
  have r: "fst (main L m od ?s1) = Inr ()"
    using assms by (simp add: e)
  have "calls (snd (main L m od ?s1)) = calls ?s1 @ new_calls (main L m od) ?s1"
    by (rule traced_calls[OF traced_main])
  then have n: "new_calls (entry_point L argv) s = PlacCall argv # new_calls (main L m od) ?s1"
    by (simp add: new_calls_def[of "entry_point L argv"] e)
  from main_dir_args[OF r] show ?thesis
    by (intro exI[of _ m] exI[of _ od]) (simp add: a e n)
qed

text \<open>A command line without and one with an output directory.\<close>

theorem entry_point_arguments_witness:
  "fst (entry_point demo_lib [''train_new_entity_type.py'', ''en''] demo_state) = Inr () \<and>
   concat (map dir_args
     (new_calls (entry_point demo_lib [''train_new_entity_type.py'', ''en'']) demo_state)) = [] \<and>
   fst (entry_point cli_lib cli_argv demo_state) = Inr () \<and>
   set (concat (map dir_args (new_calls (entry_point cli_lib cli_argv) demo_state))) =
     {PyPath (Path ''out'')}"
proof -
  have r1: "fst (entry_point demo_lib [''train_new_entity_type.py'', ''en''] demo_state) = Inr ()"
    unfolding demo_entry by (rule demo_main_returns)
  have r2: "fst (entry_point cli_lib cli_argv demo_state) = Inr ()"
    unfolding cli_entry
    using traced_returns[OF traced_main cli_quiet] by simp
  have p1: "plac_reply demo_lib h = [''en'']" for h
    by (simp add: demo_lib_def)
  have p2: "plac_reply cli_lib h = [''en'', ''out'']" for h
    by (simp add: cli_lib_def)
  from entry_point_arguments[OF r1] obtain m1 od1 where
    x1: "plac_reply demo_lib (calls demo_state @ [PlacCall [''train_new_entity_type.py'', ''en'']]) =
           m1 # (case od1 of None \<Rightarrow> [] | Some d \<Rightarrow> [d])"
    and y1: "od1 = None \<longrightarrow> concat (map dir_args
     (new_calls (entry_point demo_lib [''train_new_entity_type.py'', ''en'']) demo_state)) = []"
    by blast
  from x1 have "od1 = None"
    by (simp add: p1 split: option.splits)
  with y1 have a: "concat (map dir_args
     (new_calls (entry_point demo_lib [''train_new_entity_type.py'', ''en'']) demo_state)) = []"
    by blast
  from entry_point_arguments[OF r2] obtain m2 od2 where
    x2: "plac_reply cli_lib (calls demo_state @ [PlacCall cli_argv]) =
           m2 # (case od2 of None \<Rightarrow> [] | Some d \<Rightarrow> [d])"
    and y2: "\<forall>d. od2 = Some d \<longrightarrow>
        set (concat (map dir_args (new_calls (entry_point cli_lib cli_argv) demo_state))) =
          {PyPath (Path d)}"
    by blast
  from x2 have "od2 = Some ''out''"
    by (simp add: p2 split: option.splits)
  with y2 have b: "set (concat (map dir_args (new_calls (entry_point cli_lib cli_argv) demo_state))) =
     {PyPath (Path ''out'')}"
    by blast
  from r1 r2 a b show ?thesis by blast
qed

section \<open>Exceptions\<close>

text \<open>
  Claim C7. In every run of \<^verbatim>\<open>main\<close>, of \<^verbatim>\<open>train_ner\<close> (with no directory or with a
  \<^verbatim>\<open>Path\<close>), of \<^verbatim>\<open>get_gold_parses\<close> and of the body of its loop: the first call that
  raises ends the run, no call follows it, and the run ends with that very exception; a
  run in which no call raises returns. So the script catches nothing, retries nothing and
  rejects nothing itself.
\<close>

theorem exceptions_propagate:
  "uncaught L (calls s) (new_calls (main L model_name output_directory) s)
     (outcome (fst (main L model_name output_directory s))) \<and>
   (\<not> truthy output_dir \<or> (\<exists>p. output_dir = PyPath p) \<longrightarrow>
    uncaught L (calls s) (new_calls (train_ner L output_dir) s)
      (outcome (fst (train_ner L output_dir s)))) \<and>
   uncaught L (calls s) (new_calls (get_gold_parses L (make_doc L)) s)
     (outcome (fst (get_gold_parses L (make_doc L) s))) \<and>
   uncaught L (calls s) (new_calls (get_gold_parses_item L (make_doc L) x) s)
     (outcome (fst (get_gold_parses_item L (make_doc L) x s)))"
proof (intro conjI impI)
  show "uncaught L (calls s) (new_calls (main L model_name output_directory) s)
     (outcome (fst (main L model_name output_directory s)))"
    by (rule traced_uncaught[OF traced_main])
next
  assume "\<not> truthy output_dir \<or> (\<exists>p. output_dir = PyPath p)"
  then show "uncaught L (calls s) (new_calls (train_ner L output_dir) s)
      (outcome (fst (train_ner L output_dir s)))"
    by (auto intro: traced_uncaught[OF traced_train_ner_falsy] traced_uncaught[OF traced_train_ner_path])
next
  show "uncaught L (calls s) (new_calls (get_gold_parses L (make_doc L)) s)
     (outcome (fst (get_gold_parses L (make_doc L) s)))"
    by (rule traced_uncaught[OF traced_get_gold_parses])
next
  show "uncaught L (calls s) (new_calls (get_gold_parses_item L (make_doc L) x) s)
     (outcome (fst (get_gold_parses_item L (make_doc L) x s)))"
    by (rule traced_uncaught[OF traced_item[of "\<lambda>_. True"]]) simp_all
qed

text \<open>
  A run of \<^verbatim>\<open>main\<close> in which \<^verbatim>\<open>spacy.blank\<close> raises, and a run of \<^verbatim>\<open>train_ner\<close> in
  which the first update raises.
\<close>

theorem exceptions_propagate_witness:
  "fst (main no_model_lib ''xx'' None demo_state) = Inl (LibraryError ''no such language'') \<and>
   new_calls (main no_model_lib ''xx'' None) demo_state =
     [Print [PyStr ''Creating initial model'', PyStr ''xx''], SpacyBlank ''xx''] \<and>
   uncaught no_model_lib []
     [Print [PyStr ''Creating initial model'', PyStr ''xx''], SpacyBlank ''xx'']
     (Some (LibraryError ''no such language'')) \<and>
   \<not> truthy PyNone \<and>
   fst (train_ner fail_lib PyNone demo_state) = Inl (LibraryError ''out of memory'') \<and>
   uncaught fail_lib [] (new_calls (train_ner fail_lib PyNone) demo_state)
     (Some (LibraryError ''out of memory''))"
proof -
  have n: "new_calls (main no_model_lib ''xx'' None) demo_state =
     [Print [PyStr ''Creating initial model'', PyStr ''xx''], SpacyBlank ''xx'']"
    by (simp add: new_calls_def main_no_model) (simp add: demo_state_def)
  have c: "calls demo_state = []"
    by (simp add: demo_state_def)
  from exceptions_propagate[of no_model_lib demo_state "''xx''" None PyNone]
  have a: "uncaught no_model_lib []
     [Print [PyStr ''Creating initial model'', PyStr ''xx''], SpacyBlank ''xx'']
     (Some (LibraryError ''no such language''))"
    by (simp only: n c main_no_model fst_conv outcome_simps)
  from exceptions_propagate[of fail_lib demo_state "''en''" None PyNone]
  have b: "uncaught fail_lib [] (new_calls (train_ner fail_lib PyNone) demo_state)
     (Some (LibraryError ''out of memory''))"
    by (simp add: c train_ner_fails)
  from n a b train_ner_fails show ?thesis
    by (simp add: main_no_model)
qed

section \<open>The generator is seeded\<close>

text \<open>
  Claim C8. \<^verbatim>\<open>train_ner\<close> calls \<^verbatim>\<open>random.seed(0)\<close> first and never again. Take two runs
  that return, on equal example lists, with the same \<^verbatim>\<open>random\<close> module; the states they
  start from (generator, earlier calls, pipeline), their output directories and everything
  else the libraries answer may differ. Then both runs go through the same schedule: the
  same shuffled orders and the same batches, in the same order; and they leave the same
  list and the same generator. In the model only \<^verbatim>\<open>random.seed\<close> and
  \<^verbatim>\<open>random.shuffle\<close> act on the generator.
\<close>

theorem train_ner_schedule_deterministic:
  assumes "fst (train_ner L1 output_dir1 s1) = Inr ()"
    and "fst (train_ner L2 output_dir2 s2) = Inr ()"
    and "seed_reply L1 = seed_reply L2" and "shuffle_reply L1 = shuffle_reply L2"
    and "train_data_obj s1 = train_data_obj s2"
  shows "hd (new_calls (train_ner L1 output_dir1) s1) = RandomSeed 0 \<and>
         filter seed_call (new_calls (train_ner L1 output_dir1) s1) = [RandomSeed 0] \<and>
         steps (new_calls (train_ner L1 output_dir1) s1) =
           steps (new_calls (train_ner L2 output_dir2) s2) \<and>
         train_data_obj (snd (train_ner L1 output_dir1 s1)) =
           train_data_obj (snd (train_ner L2 output_dir2 s2)) \<and>
         rng (snd (train_ner L1 output_dir1 s1)) = rng (snd (train_ner L2 output_dir2 s2))"
proof -
  from train_ner_new[OF assms(1)] obtain new1 where
    a: "new_calls (train_ner L1 output_dir1) s1 =
           RandomSeed 0 # BeginTraining (nlp_obj s1) # new1 @
             save_calls L1 (calls s1 @ RandomSeed 0 # BeginTraining (nlp_obj s1) # new1)
               (named (nlp_obj s1)) output_dir1"
       "steps new1 = concat (map (\<lambda>k. epoch_steps (shuffled L1 (train_data_obj s1) k)
                                       (shuffled L1 (train_data_obj s1) (Suc k))) [0..<50])"
       "list_all epoch_call new1"
       "train_data_obj (snd (train_ner L1 output_dir1 s1)) = shuffled L1 (train_data_obj s1) 50"
       "rng (snd (train_ner L1 output_dir1 s1)) =
           snd ((shuffle_once L1 ^^ 50) (train_data_obj s1, seed_reply L1 0))"
    by blast
  from train_ner_new[OF assms(2)] obtain new2 where
    b: "new_calls (train_ner L2 output_dir2) s2 =
           RandomSeed 0 # BeginTraining (nlp_obj s2) # new2 @
             save_calls L2 (calls s2 @ RandomSeed 0 # BeginTraining (nlp_obj s2) # new2)
               (named (nlp_obj s2)) output_dir2"
       "steps new2 = concat (map (\<lambda>k. epoch_steps (shuffled L2 (train_data_obj s2) k)
                                       (shuffled L2 (train_data_obj s2) (Suc k))) [0..<50])"
       "train_data_obj (snd (train_ner L2 output_dir2 s2)) = shuffled L2 (train_data_obj s2) 50"
       "rng (snd (train_ner L2 output_dir2 s2)) =
           snd ((shuffle_once L2 ^^ 50) (train_data_obj s2, seed_reply L2 0))"
    by blast
  note c = shuffled_cong[OF assms(3,4)]
  have "steps (new_calls (train_ner L1 output_dir1) s1) =
        steps (new_calls (train_ner L2 output_dir2) s2)"
    by (simp add: a(1,2) b(1,2) c assms(5))
  moreover have "filter seed_call (new_calls (train_ner L1 output_dir1) s1) = [RandomSeed 0]"
    by (simp add: a(1) filter_epoch_call(1)[OF a(3)])
  ultimately show ?thesis
    by (simp add: a(1,4,5) b(3,4) c assms(3,5))
qed

text \<open>Two such runs: the generators differ at the start, the schedules agree.\<close>

theorem train_ner_schedule_deterministic_witness:
  "fst (train_ner demo_lib PyNone demo_state) = Inr () \<and>
   fst (train_ner other_lib (PyPath (Path ''out'')) other_state) = Inr () \<and>
   rng demo_state \<noteq> rng other_state \<and>
   steps (new_calls (train_ner demo_lib PyNone) demo_state) =
     steps (new_calls (train_ner other_lib (PyPath (Path ''out''))) other_state)"
proof -
  have r1: "fst (train_ner demo_lib PyNone demo_state) = Inr ()"
    using traced_returns[OF traced_train_ner_falsy[of PyNone demo_lib] demo_quiet, of demo_state]
    by simp
  have r2: "fst (train_ner other_lib (PyPath (Path ''out'')) other_state) = Inr ()"
    using traced_returns[OF traced_train_ner_path[of other_lib "Path ''out''"] other_quiet,
        of other_state]
    by simp
  have e: "seed_reply demo_lib = seed_reply other_lib"
    "shuffle_reply demo_lib = shuffle_reply other_lib"
    "train_data_obj demo_state = train_data_obj other_state"
    "rng demo_state \<noteq> rng other_state"
    by (simp_all add: other_lib_def demo_state_def other_state_def)
  from train_ner_schedule_deterministic[OF r1 r2 e(1,2,3)] r1 r2 e(4) show ?thesis
    by blast
qed

section \<open>The training list is shuffled in place\<close>

text \<open>
  Claim C9. \<^verbatim>\<open>get_gold_parses\<close> leaves in the caller's list what \<^verbatim>\<open>random.shuffle\<close>
  made of it. When \<^verbatim>\<open>random.shuffle\<close> permutes, the list after \<^verbatim>\<open>train_ner\<close> holds the
  same examples as before, each as often, however the run ends; after a run that returns
  it is the list as the fiftieth shuffle left it, so its order may have changed.
\<close>

theorem train_ner_permutes_train_data:
  assumes "\<And>g xs. mset (fst (shuffle_reply L g xs)) = mset xs"
  shows "mset (train_data_obj (snd (train_ner L output_dir s))) = mset (train_data_obj s) \<and>
         (fst (train_ner L output_dir s) = Inr () \<longrightarrow>
            train_data_obj (snd (train_ner L output_dir s)) = shuffled L (train_data_obj s) 50) \<and>
         train_data_obj (snd (get_gold_parses L (make_doc L) s)) =
           (if raises L (calls s) (RandomShuffle (train_data_obj s)) = None
            then fst (shuffle_reply L (rng s) (train_data_obj s))
            else train_data_obj s)"
proof (intro conjI impI)
  have "keeps (\<lambda>n d. mset d = mset (train_data_obj s)) (train_ner L output_dir)"
    by (rule keeps_train_ner) (simp_all add: assms)
  then show "mset (train_data_obj (snd (train_ner L output_dir s))) = mset (train_data_obj s)"
    by (simp add: keeps_def)
next
  assume "fst (train_ner L output_dir s) = Inr ()"
  from train_ner_new[OF this]
  show "train_data_obj (snd (train_ner L output_dir s)) = shuffled L (train_data_obj s) 50"
    by blast
next
  show "train_data_obj (snd (get_gold_parses L (make_doc L) s)) =
           (if raises L (calls s) (RandomShuffle (train_data_obj s)) = None
            then fst (shuffle_reply L (rng s) (train_data_obj s))
            else train_data_obj s)"
    by (simp add: get_gold_parses_def random_shuffle_def andthen_def invoke_def Let_def
          split: option.splits prod.splits)
qed

text \<open>
  With the rotating shuffle the six examples of \<^verbatim>\<open>main\<close> end up rotated by two places:
  the same examples in another order.
\<close>

theorem train_ner_permutes_train_data_witness:
  "mset (train_data_obj (snd (train_ner demo_lib PyNone demo_state))) = mset train_data \<and>
   train_data_obj (snd (train_ner demo_lib PyNone demo_state)) = rotate 2 train_data \<and>
   rotate 2 train_data \<noteq> train_data"
proof -
  have p: "mset (fst (shuffle_reply demo_lib g xs)) = mset xs" for g xs
    by (cases xs) (simp_all add: demo_lib_def)
  have r: "fst (train_ner demo_lib PyNone demo_state) = Inr ()"
    using traced_returns[OF traced_train_ner_falsy[of PyNone demo_lib] demo_quiet, of demo_state]
    by simp
  have d: "train_data_obj demo_state = train_data"
    by (simp add: demo_state_def)
  have l: "length train_data = 6"
    by (simp add: train_data_def)
  have "rotate 50 train_data = rotate (50 mod length train_data) train_data"
    by (rule rotate_conv_mod)
  then have e: "rotate 50 train_data = rotate 2 train_data"
    by (simp add: l)
  have n: "rotate 2 train_data \<noteq> train_data"
    by (simp add: train_data_def rotate_def numeral_2_eq_2)
  note t = train_ner_permutes_train_data[of demo_lib PyNone demo_state, OF p]
  from t have a: "mset (train_data_obj (snd (train_ner demo_lib PyNone demo_state))) = mset train_data"
    by (simp only: d)
  from t r have b: "train_data_obj (snd (train_ner demo_lib PyNone demo_state)) = rotate 2 train_data"
    by (simp add: d demo_shuffled e)
  from a b n show ?thesis by blast
qed

section \<open>The name of the pipeline\<close>

text \<open>
  Claim C10. Once \<^verbatim>\<open>random.seed\<close> and \<^verbatim>\<open>nlp.begin_training\<close> have returned, as they
  have in every run that returns, \<^verbatim>\<open>train_ner\<close> stores \<^verbatim>\<open>'en_ent_animal'\<close> under
  \<^verbatim>\<open>'name'\<close> in the metadata of the caller's \<^verbatim>\<open>nlp\<close> object, whatever \<^verbatim>\<open>output_dir\<close>
  is. This happens before the training loop: every later method call of the run
  (\<^verbatim>\<open>make_doc\<close>, \<^verbatim>\<open>update\<close>, \<^verbatim>\<open>to_disk\<close>) is made on the named object. Nothing that
  follows touches the object: it carries the name after every run that returns, and also
  after a run that a later call ends with an exception; nothing else of it has changed.
\<close>

theorem train_ner_names_pipeline:
  assumes "fst (train_ner L output_dir s) = Inr () \<or>
           raises L (calls s) (RandomSeed 0) = None \<and>
           raises L (calls s @ [RandomSeed 0]) (BeginTraining (nlp_obj s)) = None"
  shows "nlp_obj (snd (train_ner L output_dir s)) = named (nlp_obj s) \<and>
         map_of (meta (nlp_obj (snd (train_ner L output_dir s)))) ''name'' =
           Some (PyStr ''en_ent_animal'') \<and>
         (\<exists>later. new_calls (train_ner L output_dir) s =
                    RandomSeed 0 # BeginTraining (nlp_obj s) # later \<and>
                  list_all (\<lambda>c. set (receiver c) \<subseteq> {named (nlp_obj s)}) later)"
proof -
  from assms train_ner_Inr_started[of L output_dir s]
  have a: "raises L (calls s) (RandomSeed 0) = None"
    and b: "raises L (calls s @ [RandomSeed 0]) (BeginTraining (nlp_obj s)) = None"
    by blast+
  let ?opt = "begin_training_reply L (calls s @ [RandomSeed 0, BeginTraining (nlp_obj s)])"
  let ?s3 = "s\<lparr>rng := seed_reply L 0,
          calls := calls s @ [RandomSeed 0, BeginTraining (nlp_obj s)],
          nlp_obj := named (nlp_obj s)\<rparr>"
  have "serves
      (andthen (for_itn L ?opt 50)
       (\<lambda>_. if \<not> truthy output_dir then ret ()
         else (case output_dir of
           PyPath p \<Rightarrow>
             andthen (path_exists L p) (\<lambda>there.
             andthen (if \<not> there then path_mkdir L p else ret ()) (\<lambda>_.
             to_disk L output_dir))
         | _ \<Rightarrow> raise AttributeError)))"
    by (intro serves_andthen serves_for_itn serves_save)
  then obtain later where
    l: "calls (snd (train_ner L output_dir s)) = calls ?s3 @ later"
       "list_all (\<lambda>c. set (receiver c) \<subseteq> {nlp_obj ?s3}) later"
       "nlp_obj (snd (train_ner L output_dir s)) = nlp_obj ?s3"
    unfolding train_ner_started[OF a b] serves_def by blast
  have n: "nlp_obj (snd (train_ner L output_dir s)) = named (nlp_obj s)"
    using l(3) by simp
  have "new_calls (train_ner L output_dir) s = RandomSeed 0 # BeginTraining (nlp_obj s) # later"
    using l(1) by (simp add: new_calls_def)
  moreover have "list_all (\<lambda>c. set (receiver c) \<subseteq> {named (nlp_obj s)}) later"
    using l(2) by simp
  ultimately show ?thesis
    using n by (auto simp: named_def update_conv')
qed

text \<open>
  A run that the first update ends with an exception, and a run that returns after saving:
  the metadata had no name before and has it after both.
\<close>

theorem train_ner_names_pipeline_witness:
  "fst (train_ner fail_lib PyNone demo_state) = Inl (LibraryError ''out of memory'') \<and>
   map_of (meta (nlp_obj demo_state)) ''name'' = None \<and>
   map_of (meta (nlp_obj (snd (train_ner fail_lib PyNone demo_state)))) ''name'' =
     Some (PyStr ''en_ent_animal'') \<and>
   fst (train_ner demo_lib (PyPath (Path ''out'')) demo_state) = Inr () \<and>
   map_of (meta (nlp_obj (snd (train_ner demo_lib (PyPath (Path ''out'')) demo_state)))) ''name'' =
     Some (PyStr ''en_ent_animal'')"
proof -
  have a: "raises fail_lib (calls demo_state) (RandomSeed 0) = None \<and>
    raises fail_lib (calls demo_state @ [RandomSeed 0]) (BeginTraining (nlp_obj demo_state)) = None"
    by simp
  have r: "fst (train_ner demo_lib (PyPath (Path ''out'')) demo_state) = Inr ()"
    using traced_returns[OF traced_train_ner_path[of demo_lib "Path ''out''"] demo_quiet,
        of demo_state]
    by simp
  have n: "map_of (meta (nlp_obj demo_state)) ''name'' = None"
    by (simp add: demo_state_def demo_nlp_def)
  from train_ner_names_pipeline[of fail_lib PyNone demo_state] a
  have b: "map_of (meta (nlp_obj (snd (train_ner fail_lib PyNone demo_state)))) ''name'' =
     Some (PyStr ''en_ent_animal'')"
    by blast
  from train_ner_names_pipeline[of demo_lib "PyPath (Path ''out'')" demo_state] r
  have c: "map_of (meta (nlp_obj (snd (train_ner demo_lib (PyPath (Path ''out'')) demo_state)))) ''name'' =
     Some (PyStr ''en_ent_animal'')"
    by blast
  from train_ner_fails n b r c show ?thesis by blast
qed

end
